theory Spec2Isabelle
  imports Main
begin

section \<open>The object store\<close>

text \<open>
  The size helper and the bounded containers of \<^verbatim>\<open>draconic/types.py\<close> work on Python
  objects: they depend on object identity (\<^verbatim>\<open>child in visited\<close>), on reference cycles and
  on an attribute that is attached to an object after the fact. Objects therefore live in
  a store, a list of objects addressed by position, and containers hold addresses.

  The universe: integers (standing for every value that has no length, cannot be iterated
  and takes no attribute), native \<^verbatim>\<open>str\<close>, the bounded text class (a \<^verbatim>\<open>UserString\<close>),
  native list, tuple, set and dict, and the three bounded containers. A bounded container
  carries its \<^verbatim>\<open>__approx_len__\<close> attribute as an option: \<open>None\<close> while the attribute is
  not set yet (inside \<^verbatim>\<open>__init__\<close>). Sets and dicts keep their entries in insertion order.
\<close>

type_synonym addr = nat

datatype pyobj =
    PInt int
  | PStr string
  | SafeStr string
  | PList "addr list"
  | PTuple "addr list"
  | PSet "addr list"
  | PDict "(addr \<times> addr) list"
  | SafeList "addr list" "int option"
  | SafeSet "addr list" "int option"
  | SafeDict "(addr \<times> addr) list" "int option"

type_synonym heap = "pyobj list"

text \<open>Reading an address. An address outside the store does not occur in a Python
  state; the model reads it as an opaque integer.\<close>

definition deref :: "heap \<Rightarrow> addr \<Rightarrow> pyobj" where
  "deref h a = (if a < length h then h ! a else PInt 0)"

text \<open>Creating an object: it gets the next address.\<close>

definition alloc :: "heap \<Rightarrow> pyobj \<Rightarrow> addr \<times> heap" where
  "alloc h ob = (length h, h @ [ob])"

text \<open>The exceptions that can leave the code: the two of \<^verbatim>\<open>draconic/exceptions.py\<close>
  that the checks raise (the spec calls them SizeLimitExceeded and FeatureDisallowed) and
  the native ones of the underlying operations.\<close>

datatype pyerr =
    IterableTooLong
  | FeatureNotAvailable
  | TypeError
  | ValueError
  | AttributeError
  | OverflowError
  | MemoryError

record config =
  max_const_len :: int

section \<open>Python equality\<close>

text \<open>
  \<^verbatim>\<open>child in visited\<close> on a list compares with \<^verbatim>\<open>==\<close> after an identity test, and
  \<^verbatim>\<open>==\<close> on containers recurses into their elements. On a cyclic structure that
  recursion does not end (Python raises RecursionError), so equality takes the remaining
  recursion depth as fuel; \<open>None\<close> means the depth ran out.
\<close>

datatype eqview =
    EInt int
  | EText string
  | EList "addr list"
  | ETuple "addr list"
  | ESet "addr list"
  | EDict "(addr \<times> addr) list"

text \<open>How \<^verbatim>\<open>==\<close> sees an object: \<^verbatim>\<open>UserString\<close> compares its data with a string,
  \<^verbatim>\<open>UserList\<close> compares its data with a list, and the set and dict subclasses inherit
  the native comparison.\<close>

fun eq_view :: "pyobj \<Rightarrow> eqview" where
  "eq_view (PInt i) = EInt i"
| "eq_view (PStr s) = EText s"
| "eq_view (SafeStr s) = EText s"
| "eq_view (PList xs) = EList xs"
| "eq_view (SafeList xs c) = EList xs"
| "eq_view (PTuple xs) = ETuple xs"
| "eq_view (PSet xs) = ESet xs"
| "eq_view (SafeSet xs c) = ESet xs"
| "eq_view (PDict kvs) = EDict kvs"
| "eq_view (SafeDict kvs c) = EDict kvs"

text \<open>\<^verbatim>\<open>PyObject_RichCompareBool\<close>: the same object is equal to itself without a call
  of \<^verbatim>\<open>==\<close>.\<close>

definition rich_eq :: "(addr \<Rightarrow> addr \<Rightarrow> bool option) \<Rightarrow> addr \<Rightarrow> addr \<Rightarrow> bool option" where
  "rich_eq eq a b = (if a = b then Some True else eq a b)"

text \<open>Element by element, left to right, stopping at the first difference; when one
  side runs out the sizes decide.\<close>

fun eq_items :: "(addr \<Rightarrow> addr \<Rightarrow> bool option) \<Rightarrow> addr list \<Rightarrow> addr list \<Rightarrow> bool option" where
  "eq_items eq (x # xs) (y # ys) =
     (case rich_eq eq x y of
        None \<Rightarrow> None
      | Some True \<Rightarrow> eq_items eq xs ys
      | Some False \<Rightarrow> Some False)"
| "eq_items eq [] [] = Some True"
| "eq_items eq [] (y # ys) = Some False"
| "eq_items eq (x # xs) [] = Some False"

text \<open>Membership in a list, and the lookup of a key among the entries of a set:
  identity first, then \<^verbatim>\<open>==\<close> with the container's entry on the left.\<close>

fun py_in :: "(addr \<Rightarrow> addr \<Rightarrow> bool option) \<Rightarrow> addr \<Rightarrow> addr list \<Rightarrow> bool option" where
  "py_in eq x [] = Some False"
| "py_in eq x (v # vs) =
     (case rich_eq eq v x of
        None \<Rightarrow> None
      | Some True \<Rightarrow> Some True
      | Some False \<Rightarrow> py_in eq x vs)"

fun all_in :: "(addr \<Rightarrow> addr \<Rightarrow> bool option) \<Rightarrow> addr list \<Rightarrow> addr list \<Rightarrow> bool option" where
  "all_in eq [] ys = Some True"
| "all_in eq (x # xs) ys =
     (case py_in eq x ys of
        None \<Rightarrow> None
      | Some False \<Rightarrow> Some False
      | Some True \<Rightarrow> all_in eq xs ys)"

text \<open>The entry of a dict stored under a key: \<open>Some None\<close> when there is none.\<close>

fun dict_find :: "(addr \<Rightarrow> addr \<Rightarrow> bool option) \<Rightarrow> (addr \<times> addr) list \<Rightarrow> addr \<Rightarrow> addr option option" where
  "dict_find eq [] k = Some None"
| "dict_find eq ((k', v) # kvs) k =
     (case rich_eq eq k' k of
        None \<Rightarrow> None
      | Some True \<Rightarrow> Some (Some v)
      | Some False \<Rightarrow> dict_find eq kvs k)"

fun eq_entries :: "(addr \<Rightarrow> addr \<Rightarrow> bool option) \<Rightarrow> (addr \<times> addr) list \<Rightarrow> (addr \<times> addr) list \<Rightarrow> bool option" where
  "eq_entries eq [] bs = Some True"
| "eq_entries eq ((k, v) # as) bs =
     (case dict_find eq bs k of
        None \<Rightarrow> None
      | Some None \<Rightarrow> Some False
      | Some (Some v') \<Rightarrow>
          (case rich_eq eq v v' of
             None \<Rightarrow> None
           | Some False \<Rightarrow> Some False
           | Some True \<Rightarrow> eq_entries eq as bs))"

text \<open>\<^verbatim>\<open>a == b\<close>. Lists, sets and dicts of different sizes differ without a look at
  their elements; tuples compare their common prefix first.\<close>

fun py_eq :: "nat \<Rightarrow> heap \<Rightarrow> addr \<Rightarrow> addr \<Rightarrow> bool option" where
  "py_eq 0 h a b = None"
| "py_eq (Suc f) h a b =
     (case eq_view (deref h a) of
        EInt i \<Rightarrow> (case eq_view (deref h b) of EInt j \<Rightarrow> Some (i = j) | _ \<Rightarrow> Some False)
      | EText s \<Rightarrow> (case eq_view (deref h b) of EText t \<Rightarrow> Some (s = t) | _ \<Rightarrow> Some False)
      | EList xs \<Rightarrow>
          (case eq_view (deref h b) of
             EList ys \<Rightarrow> if length xs \<noteq> length ys then Some False else eq_items (py_eq f h) xs ys
           | _ \<Rightarrow> Some False)
      | ETuple xs \<Rightarrow>
          (case eq_view (deref h b) of
             ETuple ys \<Rightarrow> eq_items (py_eq f h) xs ys
           | _ \<Rightarrow> Some False)
      | ESet xs \<Rightarrow>
          (case eq_view (deref h b) of
             ESet ys \<Rightarrow> if length xs \<noteq> length ys then Some False else all_in (py_eq f h) xs ys
           | _ \<Rightarrow> Some False)
      | EDict kvs \<Rightarrow>
          (case eq_view (deref h b) of
             EDict kvs' \<Rightarrow>
               if length kvs \<noteq> length kvs' then Some False else eq_entries (py_eq f h) kvs kvs'
           | _ \<Rightarrow> Some False))"

section \<open>The size helper\<close>

text \<open>\<^verbatim>\<open>isinstance(obj, (str, bytes, UserString))\<close> and \<^verbatim>\<open>len(obj)\<close>.\<close>

fun text_len :: "pyobj \<Rightarrow> nat option" where
  "text_len (PStr s) = Some (length s)"
| "text_len (SafeStr s) = Some (length s)"
| "text_len _ = None"

text \<open>\<^verbatim>\<open>hasattr(obj, "__approx_len__")\<close> and the attribute's value.\<close>

fun approx_attr :: "pyobj \<Rightarrow> int option" where
  "approx_attr (SafeList xs c) = c"
| "approx_attr (SafeSet xs c) = c"
| "approx_attr (SafeDict kvs c) = c"
| "approx_attr _ = None"

text \<open>\<^verbatim>\<open>operator.length_hint(obj)\<close>: the length where there is one, else 0.\<close>

fun length_hint :: "pyobj \<Rightarrow> int" where
  "length_hint (PInt i) = 0"
| "length_hint (PStr s) = int (length s)"
| "length_hint (SafeStr s) = int (length s)"
| "length_hint (PList xs) = int (length xs)"
| "length_hint (PTuple xs) = int (length xs)"
| "length_hint (PSet xs) = int (length xs)"
| "length_hint (PDict kvs) = int (length kvs)"
| "length_hint (SafeList xs c) = int (length xs)"
| "length_hint (SafeSet xs c) = int (length xs)"
| "length_hint (SafeDict kvs c) = int (length kvs)"

text \<open>What the loop \<^verbatim>\<open>for child in iter(obj)\<close> runs over: the elements of a list, tuple
  or set, and for a dict, which the helper replaces by \<^verbatim>\<open>obj.items()\<close>, its key/value
  pairs. An integer is not iterable: the TypeError is caught and the loop body never
  runs. (Text never gets this far.)\<close>

datatype child = Elem addr | Item addr addr

fun iter_children :: "pyobj \<Rightarrow> child list" where
  "iter_children (PList xs) = map Elem xs"
| "iter_children (PTuple xs) = map Elem xs"
| "iter_children (PSet xs) = map Elem xs"
| "iter_children (SafeList xs c) = map Elem xs"
| "iter_children (SafeSet xs c) = map Elem xs"
| "iter_children (PDict kvs) = map (\<lambda>(k, v). Item k v) kvs"
| "iter_children (SafeDict kvs c) = map (\<lambda>(k, v). Item k v) kvs"
| "iter_children _ = []"

text \<open>The next child as an object: the items view makes a new tuple for each pair.\<close>

fun materialise :: "heap \<Rightarrow> child \<Rightarrow> addr \<times> heap" where
  "materialise h (Elem a) = (a, h)"
| "materialise h (Item k v) = alloc h (PTuple [k, v])"

text \<open>\<^verbatim>\<open>setattr(obj, "__approx_len__", size)\<close> under \<^verbatim>\<open>except AttributeError: pass\<close>.
  Instances of the list and set subclasses take the attribute. Native objects do not,
  and for a dict (also the bounded one) \<^verbatim>\<open>obj\<close> is the items view by now, which does
  not either.\<close>

fun setattr_approx :: "pyobj \<Rightarrow> int \<Rightarrow> pyobj" where
  "setattr_approx (SafeList xs c) n = SafeList xs (Some n)"
| "setattr_approx (SafeSet xs c) n = SafeSet xs (Some n)"
| "setattr_approx ob n = ob"

text \<open>The body of the \<^verbatim>\<open>for\<close> loop, over the children still to come. \<open>rec\<close> is the
  recursive call \<^verbatim>\<open>approx_len_of(child, visited)\<close> and \<open>eq\<close> is \<^verbatim>\<open>==\<close> at the depth
  that is left. The visited list is shared with the recursive calls, which extend it.\<close>

fun children_loop ::
  "(heap \<Rightarrow> addr \<Rightarrow> addr list \<Rightarrow> (int \<times> addr list \<times> heap) option) \<Rightarrow>
   (heap \<Rightarrow> addr \<Rightarrow> addr \<Rightarrow> bool option) \<Rightarrow>
   child list \<Rightarrow> int \<Rightarrow> addr list \<Rightarrow> heap \<Rightarrow> (int \<times> addr list \<times> heap) option" where
  "children_loop rec eq [] sz visited h = Some (sz, visited, h)"
| "children_loop rec eq (c # cs) sz visited h =
     (case materialise h c of (ch, h1) \<Rightarrow>
        (case py_in (eq h1) ch visited of
           None \<Rightarrow> None
         | Some True \<Rightarrow> children_loop rec eq cs sz visited h1
         | Some False \<Rightarrow>
             (case rec h1 ch visited of
                None \<Rightarrow> None
              | Some (n, visited', h2) \<Rightarrow>
                  children_loop rec eq cs (sz + n) (visited' @ [ch]) h2)))"

text \<open>
  \<^verbatim>\<open>approx_len_of(obj, visited=None)\<close>. The first argument is the recursion depth that is
  left; \<open>None\<close> as a result means it ran out (RecursionError). The result is the size, the
  visited list as the call leaves it (the caller's list when one was passed, the call's
  own \<^verbatim>\<open>[obj]\<close> list otherwise) and the store.
\<close>

fun approx_len_of :: "nat \<Rightarrow> heap \<Rightarrow> addr \<Rightarrow> addr list option \<Rightarrow> (int \<times> addr list \<times> heap) option" where
  "approx_len_of 0 h obj vis = None"
| "approx_len_of (Suc f) h obj vis =
     (case text_len (deref h obj) of
        Some n \<Rightarrow> Some (int n, (case vis of None \<Rightarrow> [] | Some v \<Rightarrow> v), h)
      | None \<Rightarrow>
     (case approx_attr (deref h obj) of
        Some c \<Rightarrow> Some (c, (case vis of None \<Rightarrow> [] | Some v \<Rightarrow> v), h)
      | None \<Rightarrow>
     (case children_loop (\<lambda>h' c v. approx_len_of f h' c (Some v)) (py_eq f)
             (iter_children (deref h obj)) (length_hint (deref h obj))
             (case vis of None \<Rightarrow> [obj] | Some v \<Rightarrow> v) h of
        None \<Rightarrow> None
      | Some (sz, visited, h') \<Rightarrow>
          Some (sz, visited, h'[obj := setattr_approx (deref h' obj) sz]))))"

section \<open>Native operations the containers build on\<close>

text \<open>A call returns or raises, and leaves a store; \<open>None\<close> is a call whose recursion
  depth ran out.\<close>

type_synonym 'a outcome = "(heap \<times> (pyerr + 'a)) option"

text \<open>
  Modelled from the spec: \<^verbatim>\<open>_raise_in_context\<close> comes from \<^verbatim>\<open>draconic/exceptions.py\<close>,
  which is not among the sources. The spec has both conditions "raised exactly at the
  point of violation, never deferred" (section 7), so the call raises the exception it
  is given and does not return.
\<close>

definition raise_in_context :: "pyerr \<Rightarrow> heap \<Rightarrow> 'a outcome" where
  "raise_in_context e h = Some (h, Inl e)"

text \<open>Iterating over text yields one-character objects of the same class.\<close>

fun alloc_chars :: "(string \<Rightarrow> pyobj) \<Rightarrow> heap \<Rightarrow> string \<Rightarrow> addr list \<times> heap" where
  "alloc_chars mk h [] = ([], h)"
| "alloc_chars mk h (c # cs) =
     (case alloc h (mk [c]) of (a, h1) \<Rightarrow>
        (case alloc_chars mk h1 cs of (as, h2) \<Rightarrow> (a # as, h2)))"

text \<open>The objects an iteration over \<open>a\<close> produces (\<^verbatim>\<open>list(a)\<close>, \<^verbatim>\<open>list.extend(a)\<close>,
  \<^verbatim>\<open>set.update(a)\<close>): a dict iterates over its keys, an integer raises TypeError.\<close>

definition py_iter :: "heap \<Rightarrow> addr \<Rightarrow> heap \<times> (pyerr + addr list)" where
  "py_iter h a =
     (case deref h a of
        PInt i \<Rightarrow> (h, Inl TypeError)
      | PStr s \<Rightarrow> (case alloc_chars PStr h s of (as, h') \<Rightarrow> (h', Inr as))
      | SafeStr s \<Rightarrow> (case alloc_chars SafeStr h s of (as, h') \<Rightarrow> (h', Inr as))
      | PList xs \<Rightarrow> (h, Inr xs)
      | PTuple xs \<Rightarrow> (h, Inr xs)
      | PSet xs \<Rightarrow> (h, Inr xs)
      | PDict kvs \<Rightarrow> (h, Inr (map fst kvs))
      | SafeList xs c \<Rightarrow> (h, Inr xs)
      | SafeSet xs c \<Rightarrow> (h, Inr xs)
      | SafeDict kvs c \<Rightarrow> (h, Inr (map fst kvs)))"

text \<open>\<^verbatim>\<open>hash(a)\<close> succeeds on integers, text and tuples of hashable objects; lists, sets,
  dicts and their bounded subclasses are unhashable.\<close>

fun all_opt :: "(addr \<Rightarrow> bool option) \<Rightarrow> addr list \<Rightarrow> bool option" where
  "all_opt p [] = Some True"
| "all_opt p (x # xs) =
     (case p x of
        None \<Rightarrow> None
      | Some False \<Rightarrow> Some False
      | Some True \<Rightarrow> all_opt p xs)"

fun py_hashable :: "nat \<Rightarrow> heap \<Rightarrow> addr \<Rightarrow> bool option" where
  "py_hashable 0 h a = None"
| "py_hashable (Suc f) h a =
     (case deref h a of
        PInt i \<Rightarrow> Some True
      | PStr s \<Rightarrow> Some True
      | SafeStr s \<Rightarrow> Some True
      | PTuple xs \<Rightarrow> all_opt (py_hashable f h) xs
      | _ \<Rightarrow> Some False)"

text \<open>\<^verbatim>\<open>set.add\<close> on the entries of a set: an unhashable element raises TypeError, an
  element equal to an entry changes nothing.\<close>

definition set_insert :: "nat \<Rightarrow> heap \<Rightarrow> addr list \<Rightarrow> addr \<Rightarrow> (pyerr + addr list) option" where
  "set_insert f h xs e =
     (case py_hashable f h e of
        None \<Rightarrow> None
      | Some False \<Rightarrow> Some (Inl TypeError)
      | Some True \<Rightarrow>
          (case py_in (py_eq f h) e xs of
             None \<Rightarrow> None
           | Some True \<Rightarrow> Some (Inr xs)
           | Some False \<Rightarrow> Some (Inr (xs @ [e]))))"

text \<open>Inserting the elements of one iteration in turn. The elements before an
  unhashable one stay inserted: the result is the entries reached and the error, if any.\<close>

fun set_insert_all :: "nat \<Rightarrow> heap \<Rightarrow> addr list \<Rightarrow> addr list \<Rightarrow> (addr list \<times> pyerr option) option" where
  "set_insert_all f h xs [] = Some (xs, None)"
| "set_insert_all f h xs (e # es) =
     (case set_insert f h xs e of
        None \<Rightarrow> None
      | Some (Inl err) \<Rightarrow> Some (xs, Some err)
      | Some (Inr xs') \<Rightarrow> set_insert_all f h xs' es)"

text \<open>\<^verbatim>\<open>set.update(*s)\<close> on the entries of a set: each argument is iterated and its
  elements inserted, argument after argument.\<close>

fun set_update_all :: "nat \<Rightarrow> heap \<Rightarrow> addr list \<Rightarrow> addr list \<Rightarrow> (heap \<times> addr list \<times> pyerr option) option" where
  "set_update_all f h xs [] = Some (h, xs, None)"
| "set_update_all f h xs (other # others) =
     (case py_iter h other of
        (h1, Inl err) \<Rightarrow> Some (h1, xs, Some err)
      | (h1, Inr es) \<Rightarrow>
          (case set_insert_all f h1 xs es of
             None \<Rightarrow> None
           | Some (xs', Some err) \<Rightarrow> Some (h1, xs', Some err)
           | Some (xs', None) \<Rightarrow> set_update_all f h1 xs' others))"

text \<open>Storing a value under a key in the entries of a dict: the value of an equal key
  is replaced (the old key object stays), a new key goes to the end.\<close>

fun dict_replace :: "(addr \<Rightarrow> addr \<Rightarrow> bool option) \<Rightarrow> (addr \<times> addr) list \<Rightarrow> addr \<Rightarrow> addr \<Rightarrow> (addr \<times> addr) list option" where
  "dict_replace eq [] k v = Some [(k, v)]"
| "dict_replace eq ((k', v') # kvs) k v =
     (case rich_eq eq k' k of
        None \<Rightarrow> None
      | Some True \<Rightarrow> Some ((k', v) # kvs)
      | Some False \<Rightarrow> map_option (\<lambda>r. (k', v') # r) (dict_replace eq kvs k v))"

definition dict_store :: "nat \<Rightarrow> heap \<Rightarrow> (addr \<times> addr) list \<Rightarrow> addr \<Rightarrow> addr \<Rightarrow> (pyerr + (addr \<times> addr) list) option" where
  "dict_store f h kvs k v =
     (case py_hashable f h k of
        None \<Rightarrow> None
      | Some False \<Rightarrow> Some (Inl TypeError)
      | Some True \<Rightarrow> map_option Inr (dict_replace (py_eq f h) kvs k v))"

text \<open>Merging key/value pairs into the entries of a dict, pair after pair.\<close>

fun dict_store_all :: "nat \<Rightarrow> heap \<Rightarrow> (addr \<times> addr) list \<Rightarrow> (addr \<times> addr) list \<Rightarrow> ((addr \<times> addr) list \<times> pyerr option) option" where
  "dict_store_all f h kvs [] = Some (kvs, None)"
| "dict_store_all f h kvs ((k, v) # ps) =
     (case dict_store f h kvs k v of
        None \<Rightarrow> None
      | Some (Inl err) \<Rightarrow> Some (kvs, Some err)
      | Some (Inr kvs') \<Rightarrow> dict_store_all f h kvs' ps)"

text \<open>Merging a sequence of pairs (\<^verbatim>\<open>dict.update\<close> with an argument that is not a dict):
  each element is iterated and must yield exactly a key and a value.\<close>

fun dict_merge_seq :: "nat \<Rightarrow> heap \<Rightarrow> (addr \<times> addr) list \<Rightarrow> addr list \<Rightarrow> (heap \<times> (addr \<times> addr) list \<times> pyerr option) option" where
  "dict_merge_seq f h kvs [] = Some (h, kvs, None)"
| "dict_merge_seq f h kvs (e # es) =
     (case py_iter h e of
        (h1, Inl err) \<Rightarrow> Some (h1, kvs, Some TypeError)
      | (h1, Inr [k, v]) \<Rightarrow>
          (case dict_store f h1 kvs k v of
             None \<Rightarrow> None
           | Some (Inl err) \<Rightarrow> Some (h1, kvs, Some err)
           | Some (Inr kvs') \<Rightarrow> dict_merge_seq f h1 kvs' es)
      | (h1, Inr _) \<Rightarrow> Some (h1, kvs, Some ValueError))"

text \<open>\<^verbatim>\<open>dict.update(other)\<close> on the entries of a dict.\<close>

definition dict_update_from :: "nat \<Rightarrow> heap \<Rightarrow> (addr \<times> addr) list \<Rightarrow> addr \<Rightarrow> (heap \<times> (addr \<times> addr) list \<times> pyerr option) option" where
  "dict_update_from f h kvs other =
     (case deref h other of
        PDict ps \<Rightarrow> map_option (\<lambda>(kvs', err). (h, kvs', err)) (dict_store_all f h kvs ps)
      | SafeDict ps c \<Rightarrow> map_option (\<lambda>(kvs', err). (h, kvs', err)) (dict_store_all f h kvs ps)
      | _ \<Rightarrow>
          (case py_iter h other of
             (h1, Inl err) \<Rightarrow> Some (h1, kvs, Some err)
           | (h1, Inr es) \<Rightarrow> dict_merge_seq f h1 kvs es))"

text \<open>The largest value of the native index type \<^verbatim>\<open>Py_ssize_t\<close>, on a 64-bit build.\<close>

definition ssize_max :: int where
  "ssize_max = 2 ^ 63 - 1"

text \<open>
  \<^verbatim>\<open>xs * k\<close> on a native list. The factor is converted to the index type first, and one
  that does not fit (below \<open>- 2 ^ 63\<close> or above \<open>2 ^ 63 - 1\<close>) raises OverflowError. A factor
  that is zero or negative gives the empty list. Otherwise the result has
  \<open>length xs * k\<close> entries, and raises MemoryError when the allocator does not serve a
  list of that size: \<open>capacity\<close> is the largest number of entries it serves at the time
  of the call, which is never more than \<open>ssize_max div 8\<close> (eight bytes an entry).
\<close>

definition list_mul :: "int \<Rightarrow> 'a list \<Rightarrow> int \<Rightarrow> pyerr + 'a list" where
  "list_mul capacity xs k =
     (if k < - ssize_max - 1 \<or> ssize_max < k then Inl OverflowError
      else if 0 < k \<and> min capacity (ssize_max div 8) < int (length xs) * k then Inl MemoryError
      else Inr (concat (replicate (nat k) xs)))"

text \<open>\<^verbatim>\<open>sum(approx_len_of(other) for other in s)\<close>.\<close>

fun sum_approx_len :: "nat \<Rightarrow> heap \<Rightarrow> addr list \<Rightarrow> (int \<times> heap) option" where
  "sum_approx_len f h [] = Some (0, h)"
| "sum_approx_len f h (other # others) =
     (case approx_len_of f h other None of
        None \<Rightarrow> None
      | Some (n, vis, h1) \<Rightarrow>
          (case sum_approx_len f h1 others of
             None \<Rightarrow> None
           | Some (m, h2) \<Rightarrow> Some (n + m, h2)))"

text \<open>Attribute assignment \<^verbatim>\<open>self.__approx_len__ = n\<close> on an instance of one of the
  three container classes.\<close>

fun set_cache :: "pyobj \<Rightarrow> int \<Rightarrow> pyobj" where
  "set_cache (SafeList xs c) n = SafeList xs (Some n)"
| "set_cache (SafeSet xs c) n = SafeSet xs (Some n)"
| "set_cache (SafeDict kvs c) n = SafeDict kvs (Some n)"
| "set_cache ob n = ob"

text \<open>\<^verbatim>\<open>self.__approx_len__ += d\<close>: reads the attribute, which must be there.\<close>

definition add_approx_len :: "heap \<Rightarrow> addr \<Rightarrow> int \<Rightarrow> unit outcome" where
  "add_approx_len h self d =
     (case approx_attr (deref h self) of
        None \<Rightarrow> Some (h, Inl AttributeError)
      | Some m \<Rightarrow> Some (h[self := set_cache (deref h self) (m + d)], Inr ()))"

section \<open>SafeList\<close>

text \<open>\<^verbatim>\<open>SafeList(initlist)\<close>: \<^verbatim>\<open>UserList.__init__\<close> copies the elements of the argument,
  if there is one, and the size is computed from scratch.\<close>

definition SafeList_init :: "nat \<Rightarrow> heap \<Rightarrow> addr option \<Rightarrow> addr outcome" where
  "SafeList_init f h initlist =
     (case alloc h (SafeList [] None) of (self, h0) \<Rightarrow>
        (case (case initlist of None \<Rightarrow> (h0, Inr []) | Some src \<Rightarrow> py_iter h0 src) of
           (h1, Inl err) \<Rightarrow> Some (h1, Inl err)
         | (h1, Inr xs) \<Rightarrow>
             (case approx_len_of f (h1[self := SafeList xs None]) self None of
                None \<Rightarrow> None
              | Some (n, vis, h2) \<Rightarrow> Some (h2[self := set_cache (deref h2 self) n], Inr self))))"

definition SafeList_append :: "config \<Rightarrow> nat \<Rightarrow> heap \<Rightarrow> addr \<Rightarrow> addr \<Rightarrow> unit outcome" where
  "SafeList_append config f h self obj =
     (case approx_len_of f h self None of
        None \<Rightarrow> None
      | Some (n, vis, h1) \<Rightarrow>
          if n + 1 > max_const_len config then raise_in_context IterableTooLong h1
          else
            (case deref h1 self of
               SafeList xs c \<Rightarrow> add_approx_len (h1[self := SafeList (xs @ [obj]) c]) self 1
             | _ \<Rightarrow> Some (h1, Inl TypeError)))"

definition SafeList_extend :: "config \<Rightarrow> nat \<Rightarrow> heap \<Rightarrow> addr \<Rightarrow> addr \<Rightarrow> unit outcome" where
  "SafeList_extend config f h self iterable =
     (case approx_len_of f h iterable None of
        None \<Rightarrow> None
      | Some (other_len, vis, h1) \<Rightarrow>
          (case approx_len_of f h1 self None of
             None \<Rightarrow> None
           | Some (n, vis', h2) \<Rightarrow>
               if n + other_len > max_const_len config then raise_in_context IterableTooLong h2
               else
                 (case deref h2 self of
                    SafeList xs c \<Rightarrow>
                      (case py_iter h2 iterable of
                         (h3, Inl err) \<Rightarrow> Some (h3, Inl err)
                       | (h3, Inr es) \<Rightarrow>
                           add_approx_len (h3[self := SafeList (xs @ es) c]) self other_len)
                  | _ \<Rightarrow> Some (h2, Inl TypeError))))"

text \<open>\<^verbatim>\<open>__mul__\<close>: a new empty instance is made, then \<^verbatim>\<open>self.data * n\<close> is computed
  (which may raise) and assigned, then the multiplied attribute. The limit of the
  configuration is not consulted. \<open>capacity\<close> is the allocator's, as in \<open>list_mul\<close>.\<close>

definition SafeList_mul :: "config \<Rightarrow> int \<Rightarrow> nat \<Rightarrow> heap \<Rightarrow> addr \<Rightarrow> int \<Rightarrow> addr outcome" where
  "SafeList_mul config capacity f h self n =
     (case SafeList_init f h None of
        None \<Rightarrow> None
      | Some (h1, Inl err) \<Rightarrow> Some (h1, Inl err)
      | Some (h1, Inr new) \<Rightarrow>
          (case deref h1 self of
             SafeList xs c \<Rightarrow>
               (case list_mul capacity xs n of
                  Inl err \<Rightarrow> Some (h1, Inl err)
                | Inr ys \<Rightarrow>
                    (case c of
                       None \<Rightarrow>
                         Some (h1[new := SafeList ys (approx_attr (deref h1 new))],
                               Inl AttributeError)
                     | Some m \<Rightarrow> Some (h1[new := SafeList ys (Some (m * n))], Inr new)))
           | _ \<Rightarrow> Some (h1, Inl AttributeError)))"

section \<open>SafeSet\<close>

definition SafeSet_init :: "nat \<Rightarrow> heap \<Rightarrow> addr option \<Rightarrow> addr outcome" where
  "SafeSet_init f h iterable =
     (case alloc h (SafeSet [] None) of (self, h0) \<Rightarrow>
        (case (case iterable of None \<Rightarrow> Some (h0, [], None)
                              | Some src \<Rightarrow> set_update_all f h0 [] [src]) of
           None \<Rightarrow> None
         | Some (h1, xs, Some err) \<Rightarrow> Some (h1[self := SafeSet xs None], Inl err)
         | Some (h1, xs, None) \<Rightarrow>
             (case approx_len_of f (h1[self := SafeSet xs None]) self None of
                None \<Rightarrow> None
              | Some (n, vis, h2) \<Rightarrow> Some (h2[self := set_cache (deref h2 self) n], Inr self))))"

definition SafeSet_update :: "config \<Rightarrow> nat \<Rightarrow> heap \<Rightarrow> addr \<Rightarrow> addr list \<Rightarrow> unit outcome" where
  "SafeSet_update config f h self s =
     (case sum_approx_len f h s of
        None \<Rightarrow> None
      | Some (other_lens, h1) \<Rightarrow>
          (case approx_len_of f h1 self None of
             None \<Rightarrow> None
           | Some (n, vis, h2) \<Rightarrow>
               if n + other_lens > max_const_len config then raise_in_context IterableTooLong h2
               else
                 (case deref h2 self of
                    SafeSet xs c \<Rightarrow>
                      (case set_update_all f h2 xs s of
                         None \<Rightarrow> None
                       | Some (h3, xs', Some err) \<Rightarrow> Some (h3[self := SafeSet xs' c], Inl err)
                       | Some (h3, xs', None) \<Rightarrow>
                           add_approx_len (h3[self := SafeSet xs' c]) self other_lens)
                  | _ \<Rightarrow> Some (h2, Inl TypeError))))"

definition SafeSet_add :: "config \<Rightarrow> nat \<Rightarrow> heap \<Rightarrow> addr \<Rightarrow> addr \<Rightarrow> unit outcome" where
  "SafeSet_add config f h self element =
     (case approx_len_of f h self None of
        None \<Rightarrow> None
      | Some (n, vis, h1) \<Rightarrow>
          if n + 1 > max_const_len config then raise_in_context IterableTooLong h1
          else
            (case deref h1 self of
               SafeSet xs c \<Rightarrow>
                 (case set_insert f h1 xs element of
                    None \<Rightarrow> None
                  | Some (Inl err) \<Rightarrow> Some (h1, Inl err)
                  | Some (Inr xs') \<Rightarrow> add_approx_len (h1[self := SafeSet xs' c]) self 1)
             | _ \<Rightarrow> Some (h1, Inl TypeError)))"

text \<open>\<^verbatim>\<open>union\<close>: after the check, the native union (a copy of the entries, updated with
  each argument) is wrapped in a new instance.\<close>

definition SafeSet_union :: "config \<Rightarrow> nat \<Rightarrow> heap \<Rightarrow> addr \<Rightarrow> addr list \<Rightarrow> addr outcome" where
  "SafeSet_union config f h self s =
     (case approx_len_of f h self None of
        None \<Rightarrow> None
      | Some (n, vis, h1) \<Rightarrow>
          (case sum_approx_len f h1 s of
             None \<Rightarrow> None
           | Some (m, h2) \<Rightarrow>
               if n + m > max_const_len config then raise_in_context IterableTooLong h2
               else
                 (case deref h2 self of
                    SafeSet xs c \<Rightarrow>
                      (case set_update_all f h2 xs s of
                         None \<Rightarrow> None
                       | Some (h3, ys, Some err) \<Rightarrow> Some (h3, Inl err)
                       | Some (h3, ys, None) \<Rightarrow>
                           (case alloc h3 (PSet ys) of (u, h4) \<Rightarrow> SafeSet_init f h4 (Some u)))
                  | _ \<Rightarrow> Some (h2, Inl TypeError))))"

text \<open>\<^verbatim>\<open>set.discard\<close> on the entries of a set removes the entry equal to the element, if
  there is one. An unhashable element raises TypeError, unless it is a set: that one is
  looked up as a frozenset, which no entry of this universe equals.\<close>

fun discard_entry :: "(addr \<Rightarrow> addr \<Rightarrow> bool option) \<Rightarrow> addr list \<Rightarrow> addr \<Rightarrow> addr list option" where
  "discard_entry eq [] e = Some []"
| "discard_entry eq (x # xs) e =
     (case rich_eq eq x e of
        None \<Rightarrow> None
      | Some True \<Rightarrow> Some xs
      | Some False \<Rightarrow> map_option (\<lambda>r. x # r) (discard_entry eq xs e))"

definition SafeSet_discard :: "config \<Rightarrow> nat \<Rightarrow> heap \<Rightarrow> addr \<Rightarrow> addr \<Rightarrow> unit outcome" where
  "SafeSet_discard config f h self element =
     (case deref h self of
        SafeSet xs c \<Rightarrow>
          (case eq_view (deref h element) of
             ESet es \<Rightarrow> add_approx_len h self (- 1)
           | _ \<Rightarrow>
               (case py_hashable f h element of
                  None \<Rightarrow> None
                | Some False \<Rightarrow> Some (h, Inl TypeError)
                | Some True \<Rightarrow>
                    (case discard_entry (py_eq f h) xs element of
                       None \<Rightarrow> None
                     | Some xs' \<Rightarrow> add_approx_len (h[self := SafeSet xs' c]) self (- 1))))
      | _ \<Rightarrow> Some (h, Inl TypeError))"

section \<open>SafeDict\<close>


text \<open>\<^verbatim>\<open>update(other_dict=None, **kvs)\<close>. The keyword arguments arrive as a new dict
  (\<open>kvs\<close> pairs the key strings with the values), and a missing \<^verbatim>\<open>other_dict\<close> is replaced
  by a new empty dict.\<close>

definition SafeDict_update ::
  "config \<Rightarrow> nat \<Rightarrow> heap \<Rightarrow> addr \<Rightarrow> addr option \<Rightarrow> (addr \<times> addr) list \<Rightarrow> unit outcome" where
  "SafeDict_update config f h self other_dict kvs =
     (case alloc h (PDict kvs) of (kw, h0) \<Rightarrow>
     (case (case other_dict of None \<Rightarrow> alloc h0 (PDict []) | Some a \<Rightarrow> (a, h0)) of (od, h1) \<Rightarrow>
     (case approx_len_of f h1 od None of
        None \<Rightarrow> None
      | Some (n1, vis1, h2) \<Rightarrow>
     (case approx_len_of f h2 kw None of
        None \<Rightarrow> None
      | Some (n2, vis2, h3) \<Rightarrow>
     (case approx_len_of f h3 self None of
        None \<Rightarrow> None
      | Some (n, vis, h4) \<Rightarrow>
          if n + (n1 + n2) > max_const_len config then raise_in_context IterableTooLong h4
          else
            (case deref h4 self of
               SafeDict es c \<Rightarrow>
                 (case dict_update_from f h4 es od of
                    None \<Rightarrow> None
                  | Some (h5, es', Some err) \<Rightarrow> Some (h5[self := SafeDict es' c], Inl err)
                  | Some (h5, es', None) \<Rightarrow>
                      (case dict_store_all f h5 es' kvs of
                         None \<Rightarrow> None
                       | Some (es'', Some err) \<Rightarrow> Some (h5[self := SafeDict es'' c], Inl err)
                       | Some (es'', None) \<Rightarrow>
                           add_approx_len (h5[self := SafeDict es'' c]) self (n1 + n2)))
             | _ \<Rightarrow> Some (h4, Inl TypeError)))))))"

text \<open>\<^verbatim>\<open>__setitem__\<close>: the attribute grows before the native store runs.\<close>

definition SafeDict_setitem :: "config \<Rightarrow> nat \<Rightarrow> heap \<Rightarrow> addr \<Rightarrow> addr \<Rightarrow> addr \<Rightarrow> unit outcome" where
  "SafeDict_setitem config f h self key val =
     (case approx_len_of f h val None of
        None \<Rightarrow> None
      | Some (other_len, vis, h1) \<Rightarrow>
          (case approx_len_of f h1 self None of
             None \<Rightarrow> None
           | Some (n, vis', h2) \<Rightarrow>
               if n + other_len > max_const_len config then raise_in_context IterableTooLong h2
               else
                 (case add_approx_len h2 self other_len of
                    None \<Rightarrow> None
                  | Some (h3, Inl err) \<Rightarrow> Some (h3, Inl err)
                  | Some (h3, Inr u) \<Rightarrow>
                      (case deref h3 self of
                         SafeDict es c \<Rightarrow>
                           (case dict_store f h3 es key val of
                              None \<Rightarrow> None
                            | Some (Inl err) \<Rightarrow> Some (h3, Inl err)
                            | Some (Inr es') \<Rightarrow> Some (h3[self := SafeDict es' c], Inr ()))
                       | _ \<Rightarrow> Some (h3, Inl TypeError)))))"

section \<open>The bounded text class\<close>

text \<open>\<^verbatim>\<open>encode\<close>, \<^verbatim>\<open>format\<close> and \<^verbatim>\<open>format_map\<close> have one statement each. The positional
  arguments are a list of objects, the keyword arguments pairs of a name and an object.\<close>

definition str_encode :: "config \<Rightarrow> heap \<Rightarrow> addr \<Rightarrow> addr list \<Rightarrow> (string \<times> addr) list \<Rightarrow> addr outcome" where
  "str_encode config h self args kwargs = raise_in_context FeatureNotAvailable h"

definition str_format :: "config \<Rightarrow> heap \<Rightarrow> addr \<Rightarrow> addr list \<Rightarrow> (string \<times> addr) list \<Rightarrow> addr outcome" where
  "str_format config h self args kwargs = raise_in_context FeatureNotAvailable h"

definition str_format_map :: "config \<Rightarrow> heap \<Rightarrow> addr \<Rightarrow> addr \<Rightarrow> addr outcome" where
  "str_format_map config h self mapping = raise_in_context FeatureNotAvailable h"

text \<open>The native \<^verbatim>\<open>str.join\<close> accepts native strings only (the bounded text class is
  not a subclass of \<^verbatim>\<open>str\<close>).\<close>

fun native_strs :: "heap \<Rightarrow> addr list \<Rightarrow> string list option" where
  "native_strs h [] = Some []"
| "native_strs h (a # as) =
     (case deref h a of
        PStr s \<Rightarrow> map_option (\<lambda>r. s # r) (native_strs h as)
      | _ \<Rightarrow> None)"

fun join_strs :: "string \<Rightarrow> string list \<Rightarrow> string" where
  "join_strs sep [] = []"
| "join_strs sep [s] = s"
| "join_strs sep (s # t # ss) = s @ sep @ join_strs sep (t # ss)"

text \<open>\<^verbatim>\<open>join\<close>: \<^verbatim>\<open>i = list(seq)\<close>, the check, then \<^verbatim>\<open>self.data.join(i)\<close>, which returns
  a native string.\<close>

definition str_join :: "config \<Rightarrow> nat \<Rightarrow> heap \<Rightarrow> addr \<Rightarrow> addr \<Rightarrow> addr outcome" where
  "str_join config f h self seq =
     (case deref h self of
        SafeStr sep \<Rightarrow>
          (case py_iter h seq of
             (h1, Inl err) \<Rightarrow> Some (h1, Inl err)
           | (h1, Inr es) \<Rightarrow>
               (case alloc h1 (PList es) of (i, h2) \<Rightarrow>
                  (case approx_len_of f h2 i None of
                     None \<Rightarrow> None
                   | Some (n, vis, h3) \<Rightarrow>
                       if int (length es) * int (length sep) + n > max_const_len config
                       then raise_in_context IterableTooLong h3
                       else
                         (case native_strs h3 es of
                            None \<Rightarrow> Some (h3, Inl TypeError)
                          | Some ss \<Rightarrow>
                              (case alloc h3 (PStr (join_strs sep ss)) of
                                 (r, h4) \<Rightarrow> Some (h4, Inr r))))))
      | _ \<Rightarrow> Some (h, Inl TypeError))"

section \<open>Vocabulary of the properties\<close>

subsection \<open>What a call may change\<close>

text \<open>An object is pending while it could still take the \<^verbatim>\<open>__approx_len__\<close> attribute
  from the size helper: an instance of the list or set subclass that has none yet. That
  is the state of an instance inside its own \<^verbatim>\<open>__init__\<close> only.\<close>

fun pending :: "pyobj \<Rightarrow> bool" where
  "pending (SafeList xs None) = True"
| "pending (SafeSet xs None) = True"
| "pending ob = False"

text \<open>Objects of the native classes, as opposed to the three bounded containers.\<close>

fun native :: "pyobj \<Rightarrow> bool" where
  "native (SafeList xs c) = False"
| "native (SafeSet xs c) = False"
| "native (SafeDict kvs c) = False"
| "native ob = True"

text \<open>\<open>frame h h'\<close>: the store \<open>h'\<close> extends \<open>h\<close>, every object of \<open>h\<close> that is not pending
  is the same in \<open>h'\<close> (same entries, same attribute), and the objects that are new in \<open>h'\<close>
  are native ones.\<close>

definition frame :: "heap \<Rightarrow> heap \<Rightarrow> bool" where
  "frame h h' =
     (length h \<le> length h' \<and>
      list_all2 (\<lambda>ob ob'. pending ob \<or> ob' = ob) h (take (length h) h') \<and>
      list_all native (drop (length h) h'))"

subsection \<open>The size a full traversal computes\<close>

text \<open>The object without its \<^verbatim>\<open>__approx_len__\<close> attribute.\<close>

fun clear_cache :: "pyobj \<Rightarrow> pyobj" where
  "clear_cache (SafeList xs c) = SafeList xs None"
| "clear_cache (SafeSet xs c) = SafeSet xs None"
| "clear_cache (SafeDict kvs c) = SafeDict kvs None"
| "clear_cache ob = ob"

text \<open>What the size helper computes for a container when it cannot take the value from
  the attribute: the traversal that \<^verbatim>\<open>__init__\<close> runs on the same contents.\<close>

definition full_traversal :: "nat \<Rightarrow> heap \<Rightarrow> addr \<Rightarrow> int option" where
  "full_traversal f h self =
     map_option fst (approx_len_of f (h[self := clear_cache (deref h self)]) self None)"

subsection \<open>Sequences of calls on a SafeList\<close>







subsection \<open>The size helper as the specification words it\<close>

text \<open>The specification describes the helper's loop with an identity-based membership
  test: a child is skipped when the very same object is in \<^verbatim>\<open>visited\<close>. The two functions
  below follow those words, and differ from \<open>children_loop\<close> and \<open>approx_len_of\<close> in that
  test only; they are compared with the code further down.\<close>

fun children_loop_identity ::
  "(heap \<Rightarrow> addr \<Rightarrow> addr list \<Rightarrow> (int \<times> addr list \<times> heap) option) \<Rightarrow>
   child list \<Rightarrow> int \<Rightarrow> addr list \<Rightarrow> heap \<Rightarrow> (int \<times> addr list \<times> heap) option" where
  "children_loop_identity rec [] sz visited h = Some (sz, visited, h)"
| "children_loop_identity rec (c # cs) sz visited h =
     (case materialise h c of (ch, h1) \<Rightarrow>
        if ch \<in> set visited then children_loop_identity rec cs sz visited h1
        else
          (case rec h1 ch visited of
             None \<Rightarrow> None
           | Some (n, visited', h2) \<Rightarrow>
               children_loop_identity rec cs (sz + n) (visited' @ [ch]) h2))"

fun approx_len_of_identity :: "nat \<Rightarrow> heap \<Rightarrow> addr \<Rightarrow> addr list option \<Rightarrow> (int \<times> addr list \<times> heap) option" where
  "approx_len_of_identity 0 h obj vis = None"
| "approx_len_of_identity (Suc f) h obj vis =
     (case text_len (deref h obj) of
        Some n \<Rightarrow> Some (int n, (case vis of None \<Rightarrow> [] | Some v \<Rightarrow> v), h)
      | None \<Rightarrow>
     (case approx_attr (deref h obj) of
        Some c \<Rightarrow> Some (c, (case vis of None \<Rightarrow> [] | Some v \<Rightarrow> v), h)
      | None \<Rightarrow>
     (case children_loop_identity (\<lambda>h' c v. approx_len_of_identity f h' c (Some v))
             (iter_children (deref h obj)) (length_hint (deref h obj))
             (case vis of None \<Rightarrow> [obj] | Some v \<Rightarrow> v) h of
        None \<Rightarrow> None
      | Some (sz, visited, h') \<Rightarrow>
          Some (sz, visited, h'[obj := setattr_approx (deref h' obj) sz]))))"

subsection \<open>Well-formed stores\<close>

text \<open>The addresses an object refers to: the entries of a container, the keys and the
  values of a mapping.\<close>

fun refs_of :: "pyobj \<Rightarrow> addr list" where
  "refs_of (PList xs) = xs"
| "refs_of (PTuple xs) = xs"
| "refs_of (PSet xs) = xs"
| "refs_of (PDict kvs) = map fst kvs @ map snd kvs"
| "refs_of (SafeList xs c) = xs"
| "refs_of (SafeSet xs c) = xs"
| "refs_of (SafeDict kvs c) = map fst kvs @ map snd kvs"
| "refs_of ob = []"






subsection \<open>Stores that differ by objects nobody refers to\<close>

text \<open>\<open>ins L g h\<close> is the store \<open>h\<close> with the objects \<open>g\<close> put in at address \<open>L\<close>; the
  objects of \<open>h\<close> from \<open>L\<close> on move up by the length of \<open>g\<close>, which is what \<open>shift\<close> does to
  an address. \<open>lift_res\<close> moves the result of the size helper in the same way.\<close>

definition shift :: "nat \<Rightarrow> nat \<Rightarrow> addr \<Rightarrow> addr" where
  "shift L G a = (if a < L then a else a + G)"

definition ins :: "nat \<Rightarrow> heap \<Rightarrow> heap \<Rightarrow> heap" where
  "ins L g h = take L h @ g @ drop L h"




subsection \<open>Stores of the scenarios\<close>

text \<open>The integers 1 to 6, and the same store with a SafeList of the first \<open>n\<close> of them at
  address 6.\<close>

definition ints :: heap where
  "ints = [PInt 1, PInt 2, PInt 3, PInt 4, PInt 5, PInt 6]"

definition seq_after :: "nat \<Rightarrow> heap" where
  "seq_after n = ints @ [SafeList [0..<n] (Some (int n))]"

text \<open>The bounded text \<^verbatim>\<open>"ab"\<close> and the native list \<^verbatim>\<open>["x", "y", "z"]\<close>.\<close>

definition join_heap :: heap where
  "join_heap = [SafeStr ''ab'', PList [2, 3, 4], PStr ''x'', PStr ''y'', PStr ''z'']"

text \<open>\<^verbatim>\<open>b = []; b.append(b); a = [b, 1]\<close> on native lists: \<open>a\<close> is at address 0, \<open>b\<close> at 1.\<close>

definition cycle_heap :: heap where
  "cycle_heap = [PList [1, 2], PList [1], PInt 1]"

text \<open>A native list of two distinct strings that are equal.\<close>

definition twins_heap :: heap where
  "twins_heap = [PList [1, 2], PStr ''ab'', PStr ''ab'']"

text \<open>An empty SafeList and a string.\<close>

definition text_heap :: heap where
  "text_heap = [SafeList [] (Some 0), PStr ''hello'']"

text \<open>A SafeList whose two entries are the same string: 2 for the entries and 5 for the
  string, counted once.\<close>

definition mul_heap :: heap where
  "mul_heap = [SafeList [1, 1] (Some 7), PStr ''hello'']"

text \<open>The SafeDict \<^verbatim>\<open>{1: "ab"}\<close> (1 entry, 2 for the pair, 2 for the string), another
  integer 1 and the string \<^verbatim>\<open>"xyz"\<close>.\<close>

definition dict_heap :: heap where
  "dict_heap = [SafeDict [(1, 2)] (Some 5), PInt 1, PStr ''ab'', PInt 1, PStr ''xyz'']"

text \<open>The integers 1 to 6, a SafeList and a SafeSet of the first five, the SafeDict
  \<^verbatim>\<open>{1: 2}\<close> and the native list \<^verbatim>\<open>[4, 5, 6]\<close>.\<close>

definition full_heap :: heap where
  "full_heap = ints @
     [SafeList [0, 1, 2, 3, 4] (Some 5), SafeSet [0, 1, 2, 3, 4] (Some 5),
      SafeDict [(0, 1)] (Some 3), PList [3, 4, 5]]"


text \<open>\<^verbatim>\<open>a = []; b = [a]; a.append(b)\<close> on native lists: \<open>a\<close> is at address 0, \<open>b\<close> at 1.\<close>

definition mutual_heap :: heap where
  "mutual_heap = [PList [1], PList [0]]"

text \<open>An empty SafeSet after \<^verbatim>\<open>add("hello")\<close>.\<close>

definition hello_set_heap :: heap where
  "hello_set_heap = [SafeSet [1] (Some 1), PStr ''hello'']"

section \<open>What the size helper leaves alone\<close>

lemma frame_iff:
  "frame h h' \<longleftrightarrow>
     length h \<le> length h' \<and>
     (\<forall>a<length h. pending (h ! a) \<or> h' ! a = h ! a) \<and>
     (\<forall>a. length h \<le> a \<longrightarrow> a < length h' \<longrightarrow> native (h' ! a))"
proof -
  have A: "length h \<le> length h' \<Longrightarrow>
     list_all2 (\<lambda>ob ob'. pending ob \<or> ob' = ob) h (take (length h) h') \<longleftrightarrow>
     (\<forall>a<length h. pending (h ! a) \<or> h' ! a = h ! a)"
    by (auto simp: list_all2_conv_all_nth)
  have B: "length h \<le> length h' \<Longrightarrow>
     list_all native (drop (length h) h') \<longleftrightarrow>
     (\<forall>a. length h \<le> a \<longrightarrow> a < length h' \<longrightarrow> native (h' ! a))"
  proof -
    assume le: "length h \<le> length h'"
    show ?thesis
    proof
      assume L: "list_all native (drop (length h) h')"
      show "\<forall>a. length h \<le> a \<longrightarrow> a < length h' \<longrightarrow> native (h' ! a)"
      proof (intro allI impI)
        fix a assume a: "length h \<le> a" "a < length h'"
        then have "a - length h < length (drop (length h) h')" by simp
        with L have "native (drop (length h) h' ! (a - length h))"
          by (simp add: list_all_length)
        with a le show "native (h' ! a)" by simp
      qed
    next
      assume R: "\<forall>a. length h \<le> a \<longrightarrow> a < length h' \<longrightarrow> native (h' ! a)"
      show "list_all native (drop (length h) h')"
        using R le by (simp add: list_all_length)
    qed
  qed
  show ?thesis unfolding frame_def using A B by blast
qed

lemma frame_refl: "frame h h"
  by (simp add: frame_iff)

lemma native_not_pending: "native ob \<Longrightarrow> \<not> pending ob"
  by (cases ob) auto

lemma frame_trans:
  assumes "frame h1 h2" and "frame h2 h3"
  shows "frame h1 h3"
proof -
  from assms have len: "length h1 \<le> length h2" "length h2 \<le> length h3"
    by (simp_all add: frame_iff)
  have old: "pending (h1 ! a) \<or> h3 ! a = h1 ! a" if "a < length h1" for a
  proof (cases "pending (h1 ! a)")
    case True then show ?thesis by simp
  next
    case False
    with assms(1) that have e: "h2 ! a = h1 ! a" by (auto simp: frame_iff)
    from that len have "a < length h2" by simp
    with assms(2) have "pending (h2 ! a) \<or> h3 ! a = h2 ! a" by (simp add: frame_iff)
    with e False show ?thesis by simp
  qed
  have new: "native (h3 ! a)" if "length h1 \<le> a" "a < length h3" for a
  proof (cases "a < length h2")
    case True
    with assms(1) that have n: "native (h2 ! a)" by (simp add: frame_iff)
    from assms(2) True have "pending (h2 ! a) \<or> h3 ! a = h2 ! a" by (simp add: frame_iff)
    with n show ?thesis by (auto dest: native_not_pending)
  next
    case False
    with assms(2) that show ?thesis by (simp add: frame_iff)
  qed
  from len old new show ?thesis by (simp add: frame_iff)
qed

lemma frame_alloc: "native ob \<Longrightarrow> alloc h ob = (a, h') \<Longrightarrow> frame h h'"
  by (auto simp: alloc_def frame_iff nth_append less_Suc_eq)

lemma frame_deref:
  "frame h h' \<Longrightarrow> a < length h \<Longrightarrow> \<not> pending (deref h a) \<Longrightarrow> deref h' a = deref h a"
  by (auto simp: frame_iff deref_def)

lemma attr_not_pending: "approx_attr ob = Some n \<Longrightarrow> \<not> pending ob"
  by (cases ob) auto

lemma attr_in_range: "approx_attr (deref h a) = Some n \<Longrightarrow> a < length h"
  by (simp add: deref_def split: if_splits)

lemma frame_keeps_container:
  "frame h h' \<Longrightarrow> approx_attr (deref h a) = Some n \<Longrightarrow> deref h' a = deref h a"
  using frame_deref[of h h' a] attr_in_range[of h a n] attr_not_pending[of "deref h a" n]
  by simp

lemma setattr_native: "native ob \<Longrightarrow> setattr_approx ob n = ob"
  by (cases ob) auto

lemma setattr_idle: "approx_attr ob = None \<Longrightarrow> \<not> pending ob \<Longrightarrow> setattr_approx ob n = ob"
  by (cases ob) auto

lemma frame_setattr:
  assumes fr: "frame h h1" and na: "approx_attr (deref h obj) = None"
  shows "frame h (h1[obj := setattr_approx (deref h1 obj) n])"
proof -
  from fr have len: "length h \<le> length h1" by (simp add: frame_iff)
  have old: "pending (h ! a) \<or> (h1[obj := setattr_approx (deref h1 obj) n]) ! a = h ! a"
    if a: "a < length h" for a
  proof (cases "pending (h ! a)")
    case True then show ?thesis by simp
  next
    case False
    with fr a have e: "h1 ! a = h ! a" by (auto simp: frame_iff)
    show ?thesis
    proof (cases "a = obj")
      case True
      with a len have d1: "deref h1 obj = h1 ! a" and d: "deref h obj = h ! a"
        by (simp_all add: deref_def)
      from na d have "approx_attr (h ! a) = None" by simp
      with False have "setattr_approx (h ! a) n = h ! a" by (simp add: setattr_idle)
      with True a len e d1 show ?thesis by simp
    next
      case False
      with e show ?thesis by simp
    qed
  qed
  have new: "native ((h1[obj := setattr_approx (deref h1 obj) n]) ! a)"
    if a: "length h \<le> a" "a < length h1" for a
  proof -
    from fr a have n1: "native (h1 ! a)" by (simp add: frame_iff)
    show ?thesis
    proof (cases "a = obj")
      case True
      with a have "deref h1 obj = h1 ! a" by (simp add: deref_def)
      with n1 True a show ?thesis by (simp add: setattr_native)
    next
      case False
      with n1 show ?thesis by simp
    qed
  qed
  from len old new show ?thesis by (simp add: frame_iff)
qed

lemma materialise_frame: "frame h h1" if "materialise h c = (ch, h1)"
proof (cases c)
  case (Elem a)
  then show ?thesis using that by (simp add: frame_refl)
next
  case (Item k v)
  with that have "alloc h (PTuple [k, v]) = (ch, h1)" by simp
  then show ?thesis by (rule frame_alloc[rotated]) simp
qed

lemma children_loop_frame:
  assumes rec: "\<And>h0 c v n v' h1. rec h0 c v = Some (n, v', h1) \<Longrightarrow> frame h0 h1"
  shows "children_loop rec eq cs sz vis h = Some (n, v, h') \<Longrightarrow> frame h h'"
proof (induction cs arbitrary: sz vis h)
  case Nil
  then show ?case by (simp add: frame_refl)
next
  case (Cons c cs)
  obtain ch h1 where m: "materialise h c = (ch, h1)" by (cases "materialise h c")
  then have f1: "frame h h1" by (rule materialise_frame)
  show ?case
  proof (cases "py_in (eq h1) ch vis")
    case None
    with Cons.prems m show ?thesis by simp
  next
    case (Some b)
    show ?thesis
    proof (cases b)
      case True
      with Some Cons.prems m have "children_loop rec eq cs sz vis h1 = Some (n, v, h')"
        by simp
      then have "frame h1 h'" by (rule Cons.IH)
      with f1 show ?thesis by (rule frame_trans)
    next
      case False
      with Some Cons.prems m obtain k v2 h2 where
        r: "rec h1 ch vis = Some (k, v2, h2)" and
        l: "children_loop rec eq cs (sz + k) (v2 @ [ch]) h2 = Some (n, v, h')"
        by (auto split: option.splits)
      from r have "frame h1 h2" by (rule rec)
      moreover from l have "frame h2 h'" by (rule Cons.IH)
      ultimately show ?thesis using f1 by (blast intro: frame_trans)
    qed
  qed
qed

lemma approx_len_of_frame:
  "approx_len_of f h obj vis = Some (n, v, h') \<Longrightarrow> frame h h'"
proof (induction f arbitrary: h obj vis n v h')
  case 0
  then show ?case by simp
next
  case (Suc f)
  show ?case
  proof (cases "text_len (deref h obj)")
    case (Some k)
    with Suc.prems show ?thesis by (simp add: frame_refl)
  next
    case None
    note tl = this
    show ?thesis
    proof (cases "approx_attr (deref h obj)")
      case (Some c)
      with tl Suc.prems show ?thesis by (simp add: frame_refl)
    next
      case None
      with tl Suc.prems obtain sz h1 where
        l: "children_loop (\<lambda>h' c v. approx_len_of f h' c (Some v)) (py_eq f)
              (iter_children (deref h obj)) (length_hint (deref h obj))
              (case vis of None \<Rightarrow> [obj] | Some v \<Rightarrow> v) h = Some (sz, v, h1)" and
        h': "h' = h1[obj := setattr_approx (deref h1 obj) sz]"
        by (auto split: option.splits)
      from l have "frame h h1"
        by (rule children_loop_frame[rotated]) (rule Suc.IH)
      then show ?thesis unfolding h' using None by (rule frame_setattr)
    qed
  qed
qed

lemma sum_approx_len_frame: "sum_approx_len f h s = Some (n, h') \<Longrightarrow> frame h h'"
proof (induction s arbitrary: h n)
  case Nil
  then show ?case by (simp add: frame_refl)
next
  case (Cons a s)
  from Cons.prems obtain k vis h1 m where
    a: "approx_len_of f h a None = Some (k, vis, h1)" and
    r: "sum_approx_len f h1 s = Some (m, h')"
    by (auto split: option.splits)
  from a have "frame h h1" by (rule approx_len_of_frame)
  moreover from r have "frame h1 h'" by (rule Cons.IH)
  ultimately show ?case by (rule frame_trans)
qed

lemma approx_len_of_has_fuel: "approx_len_of f h obj vis = Some r \<Longrightarrow> \<exists>g. f = Suc g"
  by (cases f) simp_all

lemma approx_len_of_cached:
  "approx_attr (deref h obj) = Some c \<Longrightarrow>
   approx_len_of (Suc f) h obj None = Some (c, [], h)"
  by (cases "deref h obj") simp_all

section \<open>The native operations never raise the size limit\<close>

lemma py_iter_error: "py_iter h a = (h', Inl e) \<Longrightarrow> e = TypeError"
  by (auto simp: py_iter_def split: pyobj.splits prod.splits)

lemma set_insert_error: "set_insert f h xs e = Some (Inl err) \<Longrightarrow> err = TypeError"
  by (auto simp: set_insert_def split: option.splits bool.splits)

lemma set_insert_all_error:
  "set_insert_all f h xs es = Some (ys, Some err) \<Longrightarrow> err = TypeError"
proof (induction es arbitrary: xs)
  case Nil
  then show ?case by simp
next
  case (Cons e es)
  then show ?case
    by (auto split: option.splits sum.splits dest: set_insert_error)
qed

lemma set_update_all_error:
  "set_update_all f h xs s = Some (h', ys, Some err) \<Longrightarrow> err = TypeError"
proof (induction s arbitrary: h xs)
  case Nil
  then show ?case by simp
next
  case (Cons a s)
  obtain h1 r where it: "py_iter h a = (h1, r)" by (cases "py_iter h a")
  show ?case
  proof (cases r)
    case (Inl e)
    with it Cons.prems show ?thesis by (auto dest: py_iter_error)
  next
    case (Inr es)
    with it Cons.prems show ?thesis
      by (auto split: option.splits dest: set_insert_all_error Cons.IH)
  qed
qed

lemma add_approx_len_error:
  "add_approx_len h self d = Some (h', Inl err) \<Longrightarrow> err = AttributeError"
  by (auto simp: add_approx_len_def split: option.splits)

lemma dict_store_error: "dict_store f h kvs k v = Some (Inl err) \<Longrightarrow> err = TypeError"
  by (auto simp: dict_store_def split: option.splits bool.splits)

lemma dict_store_all_error:
  "dict_store_all f h kvs ps = Some (kvs', Some err) \<Longrightarrow> err = TypeError"
proof (induction ps arbitrary: kvs)
  case Nil
  then show ?case by simp
next
  case (Cons p ps)
  obtain k v where p: "p = (k, v)" by (cases p)
  with Cons show ?case
    by (auto split: option.splits sum.splits dest: dict_store_error)
qed

lemma dict_merge_seq_error:
  "dict_merge_seq f h kvs es \<noteq> Some (h', kvs', Some IterableTooLong)"
proof (induction es arbitrary: h kvs)
  case Nil
  then show ?case by simp
next
  case (Cons e es)
  obtain h1 r where it: "py_iter h e = (h1, r)" by (cases "py_iter h e")
  show ?case
  proof (cases r)
    case (Inl x)
    with it show ?thesis by auto
  next
    case (Inr xs)
    show ?thesis
    proof (cases "\<exists>k v. xs = [k, v]")
      case True
      then obtain k v where xs: "xs = [k, v]" by blast
      with it Inr show ?thesis
        using Cons.IH by (auto split: option.splits sum.splits dest: dict_store_error)
    next
      case False
      with it Inr show ?thesis
        by (auto split: list.splits)
    qed
  qed
qed

lemma dict_update_from_error:
  "dict_update_from f h kvs other = Some (h', kvs', Some err) \<Longrightarrow> err \<noteq> IterableTooLong"
  by (auto simp: dict_update_from_def split: pyobj.splits prod.splits sum.splits
      simp: dict_merge_seq_error dest: dict_store_all_error py_iter_error)

lemma SafeSet_init_error:
  "SafeSet_init f h it = Some (h', Inl err) \<Longrightarrow> err = TypeError"
  by (auto simp: SafeSet_init_def alloc_def simp del: set_update_all.simps
      split: option.splits prod.splits dest: set_update_all_error)

section \<open>Rejected calls\<close>

text \<open>In each growing operation the size limit is raised by the check alone, and the
  check comes before the native operation. What ran before it is the size helper.\<close>

lemma SafeList_append_rejected:
  "SafeList_append config f h self obj = Some (h', Inl IterableTooLong) \<Longrightarrow> frame h h'"
  by (auto simp: SafeList_append_def raise_in_context_def
      split: option.splits if_splits pyobj.splits
      dest: approx_len_of_frame add_approx_len_error)

lemma SafeList_extend_rejected:
  assumes "SafeList_extend config f h self iterable = Some (h', Inl IterableTooLong)"
  shows "frame h h'"
proof -
  from assms obtain k vis h1 n vis' h2 where
    a: "approx_len_of f h iterable None = Some (k, vis, h1)" and
    b: "approx_len_of f h1 self None = Some (n, vis', h2)"
    by (auto simp: SafeList_extend_def split: option.splits)
  from a b have fr: "frame h h2"
    by (blast intro: frame_trans approx_len_of_frame)
  from assms a b have "h' = h2"
    by (auto simp: SafeList_extend_def raise_in_context_def
        split: if_splits pyobj.splits prod.splits sum.splits
        dest: py_iter_error add_approx_len_error)
  with fr show ?thesis by simp
qed

lemma SafeSet_add_rejected:
  "SafeSet_add config f h self element = Some (h', Inl IterableTooLong) \<Longrightarrow> frame h h'"
  by (auto simp: SafeSet_add_def raise_in_context_def
      split: option.splits if_splits pyobj.splits sum.splits
      dest: approx_len_of_frame add_approx_len_error set_insert_error)

lemma SafeSet_update_rejected:
  assumes "SafeSet_update config f h self s = Some (h', Inl IterableTooLong)"
  shows "frame h h'"
proof -
  from assms obtain k h1 n vis h2 where
    a: "sum_approx_len f h s = Some (k, h1)" and
    b: "approx_len_of f h1 self None = Some (n, vis, h2)"
    by (auto simp: SafeSet_update_def split: option.splits)
  from a b have fr: "frame h h2"
    by (blast intro: frame_trans approx_len_of_frame sum_approx_len_frame)
  from assms a b have "h' = h2"
    by (auto simp: SafeSet_update_def raise_in_context_def
        split: if_splits pyobj.splits option.splits
        dest: set_update_all_error add_approx_len_error)
  with fr show ?thesis by simp
qed

lemma SafeSet_union_rejected:
  assumes "SafeSet_union config f h self s = Some (h', Inl IterableTooLong)"
  shows "frame h h'"
proof -
  from assms obtain n vis h1 k h2 where
    a: "approx_len_of f h self None = Some (n, vis, h1)" and
    b: "sum_approx_len f h1 s = Some (k, h2)"
    by (auto simp: SafeSet_union_def split: option.splits)
  from a b have fr: "frame h h2"
    by (blast intro: frame_trans approx_len_of_frame sum_approx_len_frame)
  from assms a b have "h' = h2"
    by (auto simp: SafeSet_union_def raise_in_context_def alloc_def
        split: if_splits pyobj.splits option.splits
        dest: set_update_all_error SafeSet_init_error)
  with fr show ?thesis by simp
qed

lemma SafeDict_setitem_rejected:
  assumes "SafeDict_setitem config f h self key val = Some (h', Inl IterableTooLong)"
  shows "frame h h'"
proof -
  from assms obtain k vis h1 n vis' h2 where
    a: "approx_len_of f h val None = Some (k, vis, h1)" and
    b: "approx_len_of f h1 self None = Some (n, vis', h2)"
    by (auto simp: SafeDict_setitem_def split: option.splits)
  from a b have fr: "frame h h2"
    by (blast intro: frame_trans approx_len_of_frame)
  from assms a b have "h' = h2"
    by (auto simp: SafeDict_setitem_def raise_in_context_def
        split: if_splits pyobj.splits option.splits sum.splits
        dest: dict_store_error add_approx_len_error)
  with fr show ?thesis by simp
qed

lemma SafeDict_update_rejected:
  assumes "SafeDict_update config f h self other_dict kvs = Some (h', Inl IterableTooLong)"
  shows "frame h h'"
proof -
  obtain kw h0 where kw: "alloc h (PDict kvs) = (kw, h0)" by (cases "alloc h (PDict kvs)")
  obtain od h1 where od:
    "(case other_dict of None \<Rightarrow> alloc h0 (PDict []) | Some a \<Rightarrow> (a, h0)) = (od, h1)"
    by (cases "case other_dict of None \<Rightarrow> alloc h0 (PDict []) | Some a \<Rightarrow> (a, h0)")
  from kw have f0: "frame h h0" by (rule frame_alloc[rotated]) simp
  have f1: "frame h0 h1"
  proof (cases other_dict)
    case None
    with od have "alloc h0 (PDict []) = (od, h1)" by simp
    then show ?thesis by (rule frame_alloc[rotated]) simp
  next
    case (Some a)
    with od show ?thesis by (simp add: frame_refl)
  qed
  from assms kw od obtain n1 v1 h2 n2 v2 h3 n v h4 where
    a: "approx_len_of f h1 od None = Some (n1, v1, h2)" and
    b: "approx_len_of f h2 kw None = Some (n2, v2, h3)" and
    c: "approx_len_of f h3 self None = Some (n, v, h4)"
    by (auto simp: SafeDict_update_def split: option.splits)
  from f0 f1 a b c have fr: "frame h h4"
    by (blast intro: frame_trans approx_len_of_frame)
  from assms kw od a b c have "h' = h4"
    by (auto simp: SafeDict_update_def raise_in_context_def
        split: if_splits pyobj.splits option.splits
        dest!: dict_update_from_error dict_store_all_error add_approx_len_error)
  with fr show ?thesis by simp
qed

section \<open>Sequences of integers\<close>


















section \<open>Membership and cycles\<close>

text \<open>Two lists that contain each other: comparing them compares their entries, which
  are the two lists again, at every depth.\<close>

lemma mutual_lists_equality_diverges:
  "py_eq f mutual_heap 0 1 = None \<and> py_eq f mutual_heap 1 0 = None"
proof (induction f)
  case 0
  then show ?case by simp
next
  case (Suc f)
  then show ?case by (simp add: mutual_heap_def deref_def rich_eq_def)
qed

lemma cycle_inner: "approx_len_of f cycle_heap 1 (Some [0]) = None"
proof (induction f)
  case 0
  then show ?case by simp
next
  case (Suc f)
  show ?case
  proof (cases f)
    case 0
    then show ?thesis by (simp add: cycle_heap_def deref_def rich_eq_def)
  next
    case (Suc g)
    with Suc.IH have "approx_len_of (Suc g) cycle_heap 1 (Some [0]) = None" by simp
    moreover have "py_in (py_eq (Suc g) cycle_heap) 1 [0] = Some False"
      by (simp add: cycle_heap_def deref_def rich_eq_def)
    moreover have "deref cycle_heap 1 = PList [1]"
      by (simp add: cycle_heap_def deref_def)
    ultimately show ?thesis using Suc by simp
  qed
qed

lemma self_containing: "approx_len_of (Suc f) [PList [0]] 0 None = Some (1, [0], [PList [0]])"
  by (simp add: deref_def rich_eq_def)

lemma SafeList_init_empty:
  "SafeList_init (Suc f) h None = Some (h @ [SafeList [] (Some 0)], Inr (length h))"
  by (simp add: SafeList_init_def alloc_def deref_def)

lemma SafeList_init_no_fuel: "SafeList_init 0 h None = None"
  by (simp add: SafeList_init_def alloc_def)

section \<open>The size helper on a store with objects inserted\<close>

text \<open>Objects that nothing refers to do not change what the size helper computes: on
  the store with such objects put in, the helper returns the same size, and its
  \<^verbatim>\<open>visited\<close> list and its store are those of the original run, moved.\<close>

lemma length_ins: "length (ins L g h) = length h + length g"
  by (simp add: ins_def)



lemma map_shift_below: "\<forall>x\<in>set xs. x < L \<Longrightarrow> map (shift L G) xs = xs"
  by (induction xs) (simp_all add: shift_def)










lemma rich_eq_cong: "eq a b = eq' a b \<Longrightarrow> rich_eq eq a b = rich_eq eq' a b"
  by (simp add: rich_eq_def)
















section \<open>What the size helper keeps\<close>




lemma refs_set_cache: "refs_of (set_cache ob n) = refs_of ob"
  by (cases ob) simp_all












section \<open>What the native operations put into the store\<close>





















section \<open>Cached Size after construction and after a rejected call\<close>







section \<open>The claims\<close>

subsection \<open>C1: a rejected growing call leaves the container as it was\<close>

text \<open>
  C1. Let \<open>self\<close> be a bounded container, that is an object with its Cached Size set.
  Whenever \<^verbatim>\<open>append\<close>, \<^verbatim>\<open>extend\<close>, \<^verbatim>\<open>add\<close>, either \<^verbatim>\<open>update\<close>, \<^verbatim>\<open>union\<close> or the single-key
  assignment ends with the size limit raised, the container is the same object after the
  call as before it, entries and Cached Size alike. More than that: every object that
  existed before and is not pending is unchanged, so the entries are unchanged in depth,
  and the only new objects are native ones (the pairs and dicts the size helper and
  the call itself build), so a rejected \<^verbatim>\<open>union\<close> has made no new bounded set, and,
  raising, returns none.
\<close>

theorem rejected_growth_leaves_container_unchanged:
  assumes "approx_attr (deref h self) = Some n"
  shows
    "(SafeList_append config f h self obj = Some (h', Inl IterableTooLong) \<longrightarrow>
        deref h' self = deref h self \<and> frame h h') \<and>
     (SafeList_extend config f h self iterable = Some (h', Inl IterableTooLong) \<longrightarrow>
        deref h' self = deref h self \<and> frame h h') \<and>
     (SafeSet_add config f h self element = Some (h', Inl IterableTooLong) \<longrightarrow>
        deref h' self = deref h self \<and> frame h h') \<and>
     (SafeSet_update config f h self s = Some (h', Inl IterableTooLong) \<longrightarrow>
        deref h' self = deref h self \<and> frame h h') \<and>
     (SafeSet_union config f h self s = Some (h', Inl IterableTooLong) \<longrightarrow>
        deref h' self = deref h self \<and> frame h h') \<and>
     (SafeDict_update config f h self other_dict kvs = Some (h', Inl IterableTooLong) \<longrightarrow>
        deref h' self = deref h self \<and> frame h h') \<and>
     (SafeDict_setitem config f h self key val = Some (h', Inl IterableTooLong) \<longrightarrow>
        deref h' self = deref h self \<and> frame h h')"
  using assms
  by (blast dest: SafeList_append_rejected SafeList_extend_rejected SafeSet_add_rejected
      SafeSet_update_rejected SafeSet_union_rejected SafeDict_update_rejected
      SafeDict_setitem_rejected frame_keeps_container)

text \<open>At the limit 5, with a SafeList and a SafeSet of five integers, the SafeDict
  \<^verbatim>\<open>{1: 2}\<close> and the list \<^verbatim>\<open>[4, 5, 6]\<close> as the argument, each of the seven calls is
  rejected.\<close>

theorem rejected_growth_leaves_container_unchanged_witness:
  "approx_attr (deref full_heap 6) = Some 5 \<and>
   approx_attr (deref full_heap 7) = Some 5 \<and>
   approx_attr (deref full_heap 8) = Some 3 \<and>
   SafeList_append \<lparr>max_const_len = 5\<rparr> 3 full_heap 6 5 = Some (full_heap, Inl IterableTooLong) \<and>
   SafeList_extend \<lparr>max_const_len = 5\<rparr> 3 full_heap 6 9 = Some (full_heap, Inl IterableTooLong) \<and>
   SafeSet_add \<lparr>max_const_len = 5\<rparr> 3 full_heap 7 5 = Some (full_heap, Inl IterableTooLong) \<and>
   SafeSet_update \<lparr>max_const_len = 5\<rparr> 3 full_heap 7 [9] = Some (full_heap, Inl IterableTooLong) \<and>
   SafeSet_union \<lparr>max_const_len = 5\<rparr> 3 full_heap 7 [9] = Some (full_heap, Inl IterableTooLong) \<and>
   SafeDict_update \<lparr>max_const_len = 5\<rparr> 3 full_heap 8 (Some 9) [] =
     Some (full_heap @ [PDict []], Inl IterableTooLong) \<and>
   SafeDict_setitem \<lparr>max_const_len = 5\<rparr> 3 full_heap 8 2 9 = Some (full_heap, Inl IterableTooLong) \<and>
   deref (full_heap @ [PDict []]) 8 = deref full_heap 8 \<and>
   frame full_heap (full_heap @ [PDict []]) \<and>
   frame full_heap full_heap"
proof -
  have a6: "approx_attr (deref full_heap 6) = Some 5"
    and a7: "approx_attr (deref full_heap 7) = Some 5"
    and a8: "approx_attr (deref full_heap 8) = Some 3"
    by (simp_all add: full_heap_def ints_def deref_def)
  have est: "approx_len_of 3 full_heap 9 None = Some (3, [9, 3, 4, 5], full_heap)"
    by (simp add: full_heap_def ints_def deref_def rich_eq_def numeral_eq_Suc)
  have c6: "approx_len_of 3 full_heap 6 None = Some (5, [], full_heap)"
    and c7: "approx_len_of 3 full_heap 7 None = Some (5, [], full_heap)"
    and c8: "approx_len_of 3 full_heap 8 None = Some (3, [], full_heap)"
    by (simp_all add: full_heap_def ints_def deref_def numeral_eq_Suc)
  have r1: "SafeList_append \<lparr>max_const_len = 5\<rparr> 3 full_heap 6 5 = Some (full_heap, Inl IterableTooLong)"
    by (simp add: SafeList_append_def c6 raise_in_context_def)
  have r2: "SafeList_extend \<lparr>max_const_len = 5\<rparr> 3 full_heap 6 9 = Some (full_heap, Inl IterableTooLong)"
    by (simp add: SafeList_extend_def est c6 raise_in_context_def)
  have r3: "SafeSet_add \<lparr>max_const_len = 5\<rparr> 3 full_heap 7 5 = Some (full_heap, Inl IterableTooLong)"
    by (simp add: SafeSet_add_def c7 raise_in_context_def)
  have r4: "SafeSet_update \<lparr>max_const_len = 5\<rparr> 3 full_heap 7 [9] = Some (full_heap, Inl IterableTooLong)"
    by (simp add: SafeSet_update_def est c7 raise_in_context_def)
  have r5: "SafeSet_union \<lparr>max_const_len = 5\<rparr> 3 full_heap 7 [9] = Some (full_heap, Inl IterableTooLong)"
    by (simp add: SafeSet_union_def est c7 raise_in_context_def)
  have r6: "SafeDict_update \<lparr>max_const_len = 5\<rparr> 3 full_heap 8 (Some 9) [] =
      Some (full_heap @ [PDict []], Inl IterableTooLong)"
    by (simp add: SafeDict_update_def alloc_def raise_in_context_def full_heap_def ints_def
        deref_def rich_eq_def numeral_eq_Suc)
  have r7: "SafeDict_setitem \<lparr>max_const_len = 5\<rparr> 3 full_heap 8 2 9 = Some (full_heap, Inl IterableTooLong)"
    by (simp add: SafeDict_setitem_def est c8 raise_in_context_def)
  note list = rejected_growth_leaves_container_unchanged[OF a6,
      where config = "\<lparr>max_const_len = 5\<rparr>" and f = 3 and h' = full_heap
        and obj = 5 and iterable = 9]
  note set = rejected_growth_leaves_container_unchanged[OF a7,
      where config = "\<lparr>max_const_len = 5\<rparr>" and f = 3 and h' = full_heap
        and element = 5 and s = "[9]"]
  note dict = rejected_growth_leaves_container_unchanged[OF a8,
      where config = "\<lparr>max_const_len = 5\<rparr>" and f = 3 and h' = full_heap
        and key = 2 and val = 9]
  note dict_update = rejected_growth_leaves_container_unchanged[OF a8,
      where config = "\<lparr>max_const_len = 5\<rparr>" and f = 3 and h' = "full_heap @ [PDict []]"
        and other_dict = "Some 9" and kvs = "[]"]
  from list set dict dict_update a6 a7 a8 r1 r2 r3 r4 r5 r6 r7 show ?thesis by simp
qed

subsection \<open>C2: the cost of a join\<close>

text \<open>
  C2, as the claim states it, fails. With limit 10, the bounded text \<^verbatim>\<open>"ab"\<close> and the list
  \<^verbatim>\<open>["x", "y", "z"]\<close>, the check computes \<^verbatim>\<open>len(i) * len(self) + approx_len_of(i)\<close>, and
  the size helper counts the three entries of the list as well as the three characters
  of its pieces: 3 * 2 + 6 = 12, not 9. The call raises the size limit.
\<close>

theorem join_scenario_rejected_at_ceiling_10:
  "str_join \<lparr>max_const_len = 10\<rparr> 5 join_heap 0 1 =
     Some (join_heap @ [PList [2, 3, 4]], Inl IterableTooLong)"
  by (simp add: str_join_def py_iter_def alloc_def raise_in_context_def deref_def join_heap_def
      rich_eq_def numeral_eq_Suc)

text \<open>
  C2 amended. In the scenario the cost is 12: the call is rejected under every limit
  below 12 (so under 10) and returns \<^verbatim>\<open>"xabyabz"\<close> from 12 on. In general, a join whose
  computed cost (number of pieces times the length of the separator, plus the size
  helper's estimate of the list of pieces) exceeds the limit raises the size limit, and
  so returns no value.
\<close>

theorem join_cost_counts_list_entries:
  "str_join \<lparr>max_const_len = m\<rparr> (Suc (Suc f)) join_heap 0 1 =
     (if m < 12 then Some (join_heap @ [PList [2, 3, 4]], Inl IterableTooLong)
      else Some (join_heap @ [PList [2, 3, 4], PStr ''xabyabz''], Inr 6)) \<and>
   (deref h self = SafeStr sep \<and> py_iter h seq = (h1, Inr es) \<and>
    approx_len_of g (h1 @ [PList es]) (length h1) None = Some (n, vis, h3) \<and>
    max_const_len config < int (length es) * int (length sep) + n \<longrightarrow>
      str_join config g h self seq = Some (h3, Inl IterableTooLong))"
proof -
  have scenario: "str_join \<lparr>max_const_len = m\<rparr> (Suc (Suc f)) join_heap 0 1 =
     (if m < 12 then Some (join_heap @ [PList [2, 3, 4]], Inl IterableTooLong)
      else Some (join_heap @ [PList [2, 3, 4], PStr ''xabyabz''], Inr 6))"
    by (simp add: str_join_def py_iter_def alloc_def raise_in_context_def deref_def
        join_heap_def rich_eq_def)
  have general: "str_join config g h self seq = Some (h3, Inl IterableTooLong)"
    if "deref h self = SafeStr sep" "py_iter h seq = (h1, Inr es)"
      "approx_len_of g (h1 @ [PList es]) (length h1) None = Some (n, vis, h3)"
      "max_const_len config < int (length es) * int (length sep) + n"
    using that by (simp add: str_join_def alloc_def raise_in_context_def)
  from scenario general show ?thesis by blast
qed

theorem join_cost_counts_list_entries_witness:
  "deref join_heap 0 = SafeStr ''ab'' \<and>
   py_iter join_heap 1 = (join_heap, Inr [2, 3, 4]) \<and>
   approx_len_of 2 (join_heap @ [PList [2, 3, 4]]) (length join_heap) None =
     Some (6, [5, 2, 3, 4], join_heap @ [PList [2, 3, 4]]) \<and>
   max_const_len \<lparr>max_const_len = 10\<rparr> < int (length [2, 3, 4 :: nat]) * int (length ''ab'') + 6 \<and>
   str_join \<lparr>max_const_len = 10\<rparr> 2 join_heap 0 1 =
     Some (join_heap @ [PList [2, 3, 4]], Inl IterableTooLong)"
proof -
  have d: "deref join_heap 0 = SafeStr ''ab''"
    by (simp add: join_heap_def deref_def)
  have it: "py_iter join_heap 1 = (join_heap, Inr [2, 3, 4])"
    by (simp add: py_iter_def join_heap_def deref_def)
  have est: "approx_len_of 2 (join_heap @ [PList [2, 3, 4]]) (length join_heap) None =
      Some (6, [5, 2, 3, 4], join_heap @ [PList [2, 3, 4]])"
    by (simp add: join_heap_def deref_def rich_eq_def numeral_eq_Suc)
  have lim: "max_const_len \<lparr>max_const_len = 10\<rparr> <
      int (length [2, 3, 4 :: nat]) * int (length ''ab'') + 6"
    by simp
  from join_cost_counts_list_entries[of _ _ join_heap 0 "''ab''" 1 join_heap "[2, 3, 4]" 2 6
      "[5, 2, 3, 4]" "join_heap @ [PList [2, 3, 4]]" "\<lparr>max_const_len = 10\<rparr>"]
    d it est lim
  show ?thesis by blast
qed

subsection \<open>C3: termination of the size helper\<close>

text \<open>
  C3. The claim asks for a result on every value, cycles included. The helper marks a
  child as visited only after the recursive call on it has returned, and only the
  object of the outermost call is in \<^verbatim>\<open>visited\<close> from the start. For the native lists
  \<^verbatim>\<open>b = [b]\<close> and \<^verbatim>\<open>a = [b, 1]\<close> the call on \<open>a\<close> reaches \<open>b\<close>, which is not in \<^verbatim>\<open>visited\<close>
  while it is traversed, and recurses on \<open>b\<close> with the same arguments for ever: whatever
  the recursion depth allowed, it runs out and no size is returned.
\<close>

theorem approx_len_of_diverges_on_inner_cycle: "\<forall>f. approx_len_of f cycle_heap 0 None = None"
proof
  fix f
  show "approx_len_of f cycle_heap 0 None = None"
  proof (cases f)
    case 0
    then show ?thesis by simp
  next
    case (Suc g)
    have d: "deref cycle_heap 0 = PList [1, 2]"
      by (simp add: cycle_heap_def deref_def)
    show ?thesis
    proof (cases g)
      case 0
      with Suc d show ?thesis by (simp add: rich_eq_def)
    next
      case (Suc k)
      have "py_in (py_eq (Suc k) cycle_heap) 1 [0] = Some False"
        by (simp add: cycle_heap_def deref_def rich_eq_def)
      with Suc \<open>f = Suc g\<close> d cycle_inner[of "Suc k"] show ?thesis by simp
    qed
  qed
qed

subsection \<open>C4: Cached Size against a full traversal\<close>




text \<open>Accepted calls on the other containers move the Cached Size by the delta of the
  operation, which is an overestimate where the specification says so: \<^verbatim>\<open>add\<close> of an
  element that the set has already leaves the five entries and raises the Cached Size
  to 6.\<close>

lemma add_of_member_raises_cache:
  "SafeSet_add \<lparr>max_const_len = 10\<rparr> 3 full_heap 7 0 =
     Some (full_heap[7 := SafeSet [0, 1, 2, 3, 4] (Some 6)], Inr ()) \<and>
   full_traversal 3 (full_heap[7 := SafeSet [0, 1, 2, 3, 4] (Some 6)]) 7 = Some 5"
  by (simp add: SafeSet_add_def add_approx_len_def set_insert_def full_traversal_def
      full_heap_def ints_def deref_def rich_eq_def numeral_eq_Suc)

text \<open>The other cited place, \<^verbatim>\<open>SafeSet.discard\<close>, lowers the Cached Size also when the
  element was not in the set: discarding from an empty set leaves Cached Size -1.\<close>

lemma discard_absent_lowers_cache:
  "SafeSet_discard config (Suc f) [SafeSet [] (Some 0), PInt 1] 0 1 =
     Some ([SafeSet [] (Some (- 1)), PInt 1], Inr ())"
  by (simp add: SafeSet_discard_def add_approx_len_def deref_def)

subsection \<open>C5: which children the size helper skips\<close>

text \<open>
  C5. The claim reads the membership test as one of identity, as the specification does,
  and the docstring of the helper promises a size for recursive objects. The code
  tests \<^verbatim>\<open>child in visited\<close> on a list, and that compares with \<^verbatim>\<open>==\<close> whenever the two
  objects are not the same one.

  \<^item> Two native lists that contain each other, \<^verbatim>\<open>a = []; b = [a]; a.append(b)\<close>. With the
    identity test the size of \<open>a\<close> is 2: \<open>b\<close> contributes its one entry, and \<open>a\<close>, reached
    again through \<open>b\<close>, is skipped. In the code \<^verbatim>\<open>b in [a]\<close> evaluates \<^verbatim>\<open>a == b\<close>, which
    compares the entries, that is \<^verbatim>\<open>b == a\<close>, and so on: the helper returns at no
    recursion depth.

  \<^item> A native list of two distinct but equal strings \<^verbatim>\<open>"ab"\<close>. With the identity test
    each contributes its own estimate, 2 + 2 + 2 = 6. The code skips the second, which
    equals the first, and computes 4.
\<close>

theorem membership_by_equality_departs_from_identity:
  "(\<forall>f. approx_len_of f mutual_heap 0 None = None) \<and>
   approx_len_of_identity 3 mutual_heap 0 None = Some (2, [0, 1], mutual_heap) \<and>
   approx_len_of 3 twins_heap 0 None = Some (4, [0, 1], twins_heap) \<and>
   approx_len_of_identity 3 twins_heap 0 None = Some (6, [0, 1, 2], twins_heap)"
proof -
  have div: "approx_len_of f mutual_heap 0 None = None" for f
  proof (cases f)
    case 0
    then show ?thesis by simp
  next
    case (Suc g)
    have "deref mutual_heap 0 = PList [1]" by (simp add: mutual_heap_def deref_def)
    moreover have "py_in (py_eq g mutual_heap) 1 [0] = None"
      using mutual_lists_equality_diverges[of g] by (simp add: rich_eq_def)
    ultimately show ?thesis using Suc by simp
  qed
  have id: "approx_len_of_identity 3 mutual_heap 0 None = Some (2, [0, 1], mutual_heap)"
    by (simp add: mutual_heap_def deref_def numeral_eq_Suc)
  have tw: "approx_len_of 3 twins_heap 0 None = Some (4, [0, 1], twins_heap)"
    "approx_len_of_identity 3 twins_heap 0 None = Some (6, [0, 1, 2], twins_heap)"
    by (simp_all add: twins_heap_def deref_def rich_eq_def numeral_eq_Suc)
  from div id tw show ?thesis by simp
qed

subsection \<open>C6: the replicate law\<close>

text \<open>
  C6, as the claim states it, fails: not every integer is a factor that \<^verbatim>\<open>self.data * n\<close>
  accepts. The factor \<open>2 ^ 63\<close> does not fit the native index type and the call raises
  OverflowError; the factor \<open>2 ^ 60\<close> on two entries asks for a list that no allocator
  serves and the call raises MemoryError. Either way no bounded sequence is returned.
\<close>

theorem replicate_out_of_range_returns_no_sequence:
  "SafeList_mul \<lparr>max_const_len = 5\<rparr> (ssize_max div 8) (Suc 0) mul_heap 0 (2 ^ 63) =
     Some (mul_heap @ [SafeList [] (Some 0)], Inl OverflowError) \<and>
   SafeList_mul \<lparr>max_const_len = 5\<rparr> (ssize_max div 8) (Suc 0) mul_heap 0 (2 ^ 60) =
     Some (mul_heap @ [SafeList [] (Some 0)], Inl MemoryError)"
  by (simp add: SafeList_mul_def SafeList_init_empty list_mul_def ssize_max_def mul_heap_def
      deref_def)

text \<open>
  C6 amended. Let a bounded sequence have entries \<open>xs\<close> and Cached Size \<open>n\<close>.

  \<^item> For every integer \<open>k\<close> from \<open>- 2 ^ 63\<close> to \<open>2 ^ 63 - 1\<close> that is at most 0 or whose
    result, of \<open>length xs * k\<close> entries, the allocator serves, \<^verbatim>\<open>self * k\<close> returns a new
    bounded sequence (at the next address of the store, nothing else changes) whose
    entries are the native repetition of \<open>xs\<close> by \<open>k\<close> and whose Cached Size is exactly
    \<open>n * k\<close>: the product is assigned whatever a traversal of the new entries would give.

  \<^item> For every other integer the call raises, OverflowError for a factor outside that
    range and MemoryError for a result that is too large, and returns no sequence; the
    empty instance made first stays behind in the store.
\<close>

theorem replicate_law_within_index_range:
  assumes "deref h self = SafeList xs (Some n)"
  shows
    "(- (2 ^ 63) \<le> k \<and> k < 2 ^ 63 \<and>
      (k \<le> 0 \<or> int (length xs) * k \<le> min capacity (ssize_max div 8)) \<longrightarrow>
        SafeList_mul config capacity (Suc f) h self k =
          Some (h @ [SafeList (concat (replicate (nat k) xs)) (Some (n * k))], Inr (length h))) \<and>
     (k < - (2 ^ 63) \<or> 2 ^ 63 \<le> k \<longrightarrow>
        SafeList_mul config capacity (Suc f) h self k =
          Some (h @ [SafeList [] (Some 0)], Inl OverflowError)) \<and>
     (0 < k \<and> k < 2 ^ 63 \<and> min capacity (ssize_max div 8) < int (length xs) * k \<longrightarrow>
        SafeList_mul config capacity (Suc f) h self k =
          Some (h @ [SafeList [] (Some 0)], Inl MemoryError))"
proof -
  from assms have len: "self < length h" by (simp add: deref_def split: if_splits)
  with assms have d: "deref (h @ [SafeList [] (Some 0)]) self = SafeList xs (Some n)"
    by (simp add: deref_def nth_append)
  have mul: "SafeList_mul config capacity (Suc f) h self k =
      (case list_mul capacity xs k of
         Inl err \<Rightarrow> Some (h @ [SafeList [] (Some 0)], Inl err)
       | Inr ys \<Rightarrow> Some (h @ [SafeList ys (Some (n * k))], Inr (length h)))"
    by (simp add: SafeList_mul_def SafeList_init_empty d split: sum.splits)
  have ok: "list_mul capacity xs k = Inr (concat (replicate (nat k) xs))"
    if "- (2 ^ 63) \<le> k" "k < 2 ^ 63"
      "k \<le> 0 \<or> int (length xs) * k \<le> min capacity (ssize_max div 8)"
    using that by (auto simp: list_mul_def ssize_max_def)
  have ov: "list_mul capacity xs k = Inl OverflowError" if "k < - (2 ^ 63) \<or> 2 ^ 63 \<le> k"
    using that by (auto simp: list_mul_def ssize_max_def)
  have me: "list_mul capacity xs k = Inl MemoryError"
    if "0 < k" "k < 2 ^ 63" "min capacity (ssize_max div 8) < int (length xs) * k"
    using that by (auto simp: list_mul_def ssize_max_def)
  from ok ov me show ?thesis by (simp add: mul)
qed

text \<open>Two entries that are the same five-letter string, Cached Size 7: times 3 gives
  six entries and Cached Size 21 (a traversal would give 11), times -2 gives no
  entries and Cached Size -14; times \<open>- 2 ^ 63 - 1\<close> raises OverflowError and times
  \<open>2 ^ 60\<close> raises MemoryError.\<close>

theorem replicate_law_within_index_range_witness:
  "deref mul_heap 0 = SafeList [1, 1] (Some 7) \<and>
   SafeList_mul \<lparr>max_const_len = 5\<rparr> (ssize_max div 8) (Suc 0) mul_heap 0 3 =
     Some (mul_heap @ [SafeList [1, 1, 1, 1, 1, 1] (Some 21)], Inr 2) \<and>
   SafeList_mul \<lparr>max_const_len = 5\<rparr> (ssize_max div 8) (Suc 0) mul_heap 0 (- 2) =
     Some (mul_heap @ [SafeList [] (Some (- 14))], Inr 2) \<and>
   SafeList_mul \<lparr>max_const_len = 5\<rparr> (ssize_max div 8) (Suc 0) mul_heap 0 (- (2 ^ 63) - 1) =
     Some (mul_heap @ [SafeList [] (Some 0)], Inl OverflowError) \<and>
   SafeList_mul \<lparr>max_const_len = 5\<rparr> (ssize_max div 8) (Suc 0) mul_heap 0 (2 ^ 60) =
     Some (mul_heap @ [SafeList [] (Some 0)], Inl MemoryError) \<and>
   full_traversal 3 (mul_heap @ [SafeList [1, 1, 1, 1, 1, 1] (Some 21)]) 2 = Some 11"
proof -
  have d: "deref mul_heap 0 = SafeList [1, 1] (Some 7)"
    by (simp add: mul_heap_def deref_def)
  have t: "full_traversal 3 (mul_heap @ [SafeList [1, 1, 1, 1, 1, 1] (Some 21)]) 2 = Some 11"
    by (simp add: full_traversal_def mul_heap_def deref_def rich_eq_def numeral_eq_Suc)
  have l: "length mul_heap = 2" by (simp add: mul_heap_def)
  have r3: "concat (replicate 3 [Suc 0, Suc 0]) = [Suc 0, Suc 0, Suc 0, Suc 0, Suc 0, Suc 0]"
    by (simp add: numeral_eq_Suc)
  from replicate_law_within_index_range[OF d, of 3 "ssize_max div 8" "\<lparr>max_const_len = 5\<rparr>" 0]
  have a: "SafeList_mul \<lparr>max_const_len = 5\<rparr> (ssize_max div 8) (Suc 0) mul_heap 0 3 =
      Some (mul_heap @ [SafeList [1, 1, 1, 1, 1, 1] (Some 21)], Inr 2)"
    by (simp add: l r3 ssize_max_def)
  from replicate_law_within_index_range[OF d, of "- 2" "ssize_max div 8" "\<lparr>max_const_len = 5\<rparr>" 0]
  have b: "SafeList_mul \<lparr>max_const_len = 5\<rparr> (ssize_max div 8) (Suc 0) mul_heap 0 (- 2) =
      Some (mul_heap @ [SafeList [] (Some (- 14))], Inr 2)"
    by (simp add: l)
  from replicate_law_within_index_range[OF d, of "- (2 ^ 63) - 1" "ssize_max div 8" "\<lparr>max_const_len = 5\<rparr>" 0]
  have c: "SafeList_mul \<lparr>max_const_len = 5\<rparr> (ssize_max div 8) (Suc 0) mul_heap 0
      (- (2 ^ 63) - 1) = Some (mul_heap @ [SafeList [] (Some 0)], Inl OverflowError)"
    by simp
  from replicate_law_within_index_range[OF d, of "2 ^ 60" "ssize_max div 8" "\<lparr>max_const_len = 5\<rparr>" 0]
  have e: "SafeList_mul \<lparr>max_const_len = 5\<rparr> (ssize_max div 8) (Suc 0) mul_heap 0 (2 ^ 60) =
      Some (mul_heap @ [SafeList [] (Some 0)], Inl MemoryError)"
    by (simp add: ssize_max_def)
  from d t a b c e show ?thesis by simp
qed

subsection \<open>C7: replication is not checked against the limit\<close>

text \<open>
  C7, as the claim states it, fails in its last part: replication is not the one
  growing operation whose result can exceed the limit without being rejected. \<^verbatim>\<open>append\<close>
  is checked with a delta of 1 whatever is appended: at limit 1 an empty bounded
  sequence accepts \<^verbatim>\<open>append("hello")\<close>, and a traversal of the result computes 6.
\<close>

theorem append_accepted_above_ceiling:
  "SafeList_append \<lparr>max_const_len = 1\<rparr> 3 text_heap 0 1 =
     Some ([SafeList [1] (Some 1), PStr ''hello''], Inr ()) \<and>
   full_traversal 3 [SafeList [1] (Some 1), PStr ''hello''] 0 = Some 6 \<and>
   max_const_len \<lparr>max_const_len = 1\<rparr> < 6"
  by (simp add: SafeList_append_def add_approx_len_def full_traversal_def deref_def
      text_heap_def rich_eq_def numeral_eq_Suc)

text \<open>
  C7 amended. \<^verbatim>\<open>__mul__\<close> never raises the size limit, for no receiver, factor, limit or
  store, and it does not consult the limit: the call has the same outcome under any
  two configurations. So it returns results above the limit: at limit 5 the bounded
  sequence of five integers times 2 is returned with ten entries and Cached Size 10.
  It is not the only growing operation that does: at limit 1, \<^verbatim>\<open>append("hello")\<close> on an
  empty bounded sequence is accepted and leaves contents of size 6, and \<^verbatim>\<open>union()\<close> on
  the bounded set that \<^verbatim>\<open>add("hello")\<close> made, with Cached Size 1, returns a new bounded
  set with Cached Size 6.
\<close>

theorem replicate_unchecked_and_not_alone:
  "SafeList_mul config capacity f h self k \<noteq> Some (h', Inl IterableTooLong) \<and>
   SafeList_mul config capacity f h self k = SafeList_mul config' capacity f h self k \<and>
   SafeList_mul \<lparr>max_const_len = 5\<rparr> (ssize_max div 8) (Suc g) (seq_after 5) 6 2 =
     Some (seq_after 5 @ [SafeList [0, 1, 2, 3, 4, 0, 1, 2, 3, 4] (Some 10)], Inr 7) \<and>
   SafeList_append \<lparr>max_const_len = 1\<rparr> (Suc (Suc (Suc g))) text_heap 0 1 =
     Some ([SafeList [1] (Some 1), PStr ''hello''], Inr ()) \<and>
   full_traversal (Suc (Suc (Suc g))) [SafeList [1] (Some 1), PStr ''hello''] 0 = Some 6 \<and>
   SafeSet_union \<lparr>max_const_len = 1\<rparr> (Suc (Suc (Suc g))) hello_set_heap 0 [] =
     Some (hello_set_heap @ [PSet [1], SafeSet [1] (Some 6)], Inr 3)"
proof -
  have never: "SafeList_mul config capacity f h self k \<noteq> Some (h', Inl IterableTooLong)"
  proof (cases f)
    case 0
    then show ?thesis by (simp add: SafeList_mul_def SafeList_init_no_fuel)
  next
    case (Suc d)
    then show ?thesis
      by (simp add: SafeList_mul_def SafeList_init_empty list_mul_def
          split: pyobj.splits option.splits sum.splits)
  qed
  have same: "SafeList_mul config capacity f h self k = SafeList_mul config' capacity f h self k"
    by (simp add: SafeList_mul_def)
  have over: "SafeList_mul \<lparr>max_const_len = 5\<rparr> (ssize_max div 8) (Suc g) (seq_after 5) 6 2 =
      Some (seq_after 5 @ [SafeList [0, 1, 2, 3, 4, 0, 1, 2, 3, 4] (Some 10)], Inr 7)"
    by (simp add: SafeList_mul_def SafeList_init_empty list_mul_def ssize_max_def deref_def
        seq_after_def ints_def upt_rec numeral_eq_Suc)
  have app: "SafeList_append \<lparr>max_const_len = 1\<rparr> (Suc (Suc (Suc g))) text_heap 0 1 =
      Some ([SafeList [1] (Some 1), PStr ''hello''], Inr ())"
    by (simp add: SafeList_append_def add_approx_len_def deref_def text_heap_def)
  have trav: "full_traversal (Suc (Suc (Suc g))) [SafeList [1] (Some 1), PStr ''hello''] 0 = Some 6"
    by (simp add: full_traversal_def deref_def rich_eq_def)
  have uni: "SafeSet_union \<lparr>max_const_len = 1\<rparr> (Suc (Suc (Suc g))) hello_set_heap 0 [] =
      Some (hello_set_heap @ [PSet [1], SafeSet [1] (Some 6)], Inr 3)"
    by (simp add: SafeSet_union_def SafeSet_init_def set_insert_def py_iter_def alloc_def
        deref_def hello_set_heap_def rich_eq_def)
  from never same over app trav uni show ?thesis by simp
qed

subsection \<open>C8: single-key assignment\<close>

text \<open>
  C8. For a bounded mapping with Cached Size \<open>c\<close> and a value whose estimate is \<open>d\<close>: when
  \<open>c + d\<close> exceeds the limit the assignment raises the size limit and the mapping is as
  before; otherwise the Cached Size becomes \<open>c + d\<close>, before the native store runs and
  whatever it does: new key or key already present, the size of a replaced value is
  not subtracted.
\<close>

theorem setitem_delta_is_value_size:
  assumes self: "deref h self = SafeDict es (Some c)"
    and val: "approx_len_of f h val None = Some (d, vis, h1)"
  shows
    "(max_const_len config < c + d \<longrightarrow>
        SafeDict_setitem config f h self key val = Some (h1, Inl IterableTooLong) \<and>
        deref h1 self = SafeDict es (Some c)) \<and>
     (c + d \<le> max_const_len config \<longrightarrow>
        SafeDict_setitem config f h self key val =
          (case dict_store f (h1[self := SafeDict es (Some (c + d))]) es key val of
             None \<Rightarrow> None
           | Some (Inl err) \<Rightarrow> Some (h1[self := SafeDict es (Some (c + d))], Inl err)
           | Some (Inr es') \<Rightarrow> Some (h1[self := SafeDict es' (Some (c + d))], Inr ())))"
proof -
  from val obtain g where f: "f = Suc g" by (blast dest: approx_len_of_has_fuel)
  from val have fr: "frame h h1" by (rule approx_len_of_frame)
  from self have at: "approx_attr (deref h self) = Some c" by simp
  with fr have d1: "deref h1 self = SafeDict es (Some c)"
    using self by (simp add: frame_keeps_container)
  then have "approx_attr (deref h1 self) = Some c" by simp
  then have sz: "approx_len_of f h1 self None = Some (c, [], h1)"
    unfolding f by (rule approx_len_of_cached)
  from d1 have len: "self < length h1" by (simp add: deref_def split: if_splits)
  have rej: "max_const_len config < c + d \<Longrightarrow>
      SafeDict_setitem config f h self key val = Some (h1, Inl IterableTooLong)"
    using val sz by (simp add: SafeDict_setitem_def raise_in_context_def)
  have acc: "c + d \<le> max_const_len config \<Longrightarrow>
      SafeDict_setitem config f h self key val =
          (case dict_store f (h1[self := SafeDict es (Some (c + d))]) es key val of
             None \<Rightarrow> None
           | Some (Inl err) \<Rightarrow> Some (h1[self := SafeDict es (Some (c + d))], Inl err)
           | Some (Inr es') \<Rightarrow> Some (h1[self := SafeDict es' (Some (c + d))], Inr ()))"
    using val sz d1 len
    by (simp add: SafeDict_setitem_def add_approx_len_def deref_def
        split: option.splits sum.splits)
  from rej acc d1 show ?thesis by blast
qed

text \<open>The mapping \<^verbatim>\<open>{1: "ab"}\<close> with Cached Size 5 and the assignment of \<^verbatim>\<open>"xyz"\<close> to
  the key 1 that is there: rejected at limit 7, and at limit 8 the value is replaced
  and the Cached Size is 8.\<close>

theorem setitem_delta_is_value_size_witness:
  "deref dict_heap 0 = SafeDict [(1, 2)] (Some 5) \<and>
   approx_len_of 2 dict_heap 4 None = Some (3, [], dict_heap) \<and>
   SafeDict_setitem \<lparr>max_const_len = 7\<rparr> 2 dict_heap 0 3 4 = Some (dict_heap, Inl IterableTooLong) \<and>
   SafeDict_setitem \<lparr>max_const_len = 8\<rparr> 2 dict_heap 0 3 4 =
     Some ([SafeDict [(1, 4)] (Some 8), PInt 1, PStr ''ab'', PInt 1, PStr ''xyz''], Inr ())"
proof -
  have s: "deref dict_heap 0 = SafeDict [(1, 2)] (Some 5)"
    by (simp add: dict_heap_def deref_def)
  have v: "approx_len_of 2 dict_heap 4 None = Some (3, [], dict_heap)"
    by (simp add: dict_heap_def deref_def numeral_eq_Suc)
  have st: "dict_store 2 (dict_heap[0 := SafeDict [(1, 2)] (Some (5 + 3))]) [(1, 2)] 3 4 = Some (Inr [(1, 4)])"
    by (simp add: dict_store_def dict_heap_def deref_def rich_eq_def numeral_eq_Suc)
  show ?thesis
    using setitem_delta_is_value_size[OF s v, of "\<lparr>max_const_len = 7\<rparr>" 3] setitem_delta_is_value_size[OF s v, of "\<lparr>max_const_len = 8\<rparr>" 3] s v st
    by (simp add: dict_heap_def)
qed

subsection \<open>C9: operations of the bounded text that are always refused\<close>

text \<open>
  C9. \<^verbatim>\<open>encode\<close>, \<^verbatim>\<open>format\<close> and \<^verbatim>\<open>format_map\<close> raise FeatureNotAvailable for every
  limit, receiver, store and arguments, and so return no value.
\<close>

theorem text_encode_format_always_disallowed:
  "str_encode config h self args kwargs = Some (h, Inl FeatureNotAvailable) \<and>
   str_format config h self args kwargs = Some (h, Inl FeatureNotAvailable) \<and>
   str_format_map config h self mapping = Some (h, Inl FeatureNotAvailable)"
  by (simp add: str_encode_def str_format_def str_format_map_def raise_in_context_def)

subsection \<open>C10: six appends at limit 5\<close>

text \<open>
  C10. At limit 5, a new empty bounded sequence accepts the integers 1 to 5 one after
  the other; appending 6 then raises the size limit and the sequence still has its
  five entries.
\<close>

theorem append_scenario_ceiling_5:
  "SafeList_init (Suc f) ints None = Some (seq_after 0, Inr 6) \<and>
   SafeList_append \<lparr>max_const_len = 5\<rparr> (Suc f) (seq_after 0) 6 0 = Some (seq_after 1, Inr ()) \<and>
   SafeList_append \<lparr>max_const_len = 5\<rparr> (Suc f) (seq_after 1) 6 1 = Some (seq_after 2, Inr ()) \<and>
   SafeList_append \<lparr>max_const_len = 5\<rparr> (Suc f) (seq_after 2) 6 2 = Some (seq_after 3, Inr ()) \<and>
   SafeList_append \<lparr>max_const_len = 5\<rparr> (Suc f) (seq_after 3) 6 3 = Some (seq_after 4, Inr ()) \<and>
   SafeList_append \<lparr>max_const_len = 5\<rparr> (Suc f) (seq_after 4) 6 4 = Some (seq_after 5, Inr ()) \<and>
   SafeList_append \<lparr>max_const_len = 5\<rparr> (Suc f) (seq_after 5) 6 5 =
     Some (seq_after 5, Inl IterableTooLong) \<and>
   deref (seq_after 5) 6 = SafeList [0, 1, 2, 3, 4] (Some 5) \<and>
   length_hint (deref (seq_after 5) 6) = 5"
  by (simp add: SafeList_init_def SafeList_append_def raise_in_context_def add_approx_len_def
      alloc_def deref_def seq_after_def ints_def upt_rec)

end
